theory Spec2Isabelle
  imports Complex_Main "HOL-Library.AList"
begin

section \<open>Hospital billing system: data model\<close>

text \<open>
  The program under study is \<^verbatim>\<open>src/main.py\<close>: three plain classes (Patient, Service,
  Bill) and the class HospitalBillingSystem that owns three dictionaries, three
  next-id counters, and reads and writes one JSON file.

  Modelling decisions.
  \<^item> Objects are records. Ids are Python integers, hence \<open>int\<close>.
  \<^item> A price is whatever number the caller or the file supplied. The model is
    polymorphic in the price type \<open>'p\<close> and only ever uses \<open>0\<close> and \<open>+\<close> on it,
    in the order in which Python's \<^verbatim>\<open>sum\<close> uses them (a left fold that starts at 0).
    Nothing is assumed about associativity or commutativity of \<open>+\<close>.
  \<^item> A Python dictionary keeps insertion order; assigning to an existing key
    replaces the value where it stands. That is \<open>AList.update\<close> on an association
    list, with \<open>map_of\<close> for lookup.
  \<^item> Printing is not modelled. \<^verbatim>\<open>datetime.now()\<close>, already formatted, is a parameter.
  \<^item> The file is modelled after \<^verbatim>\<open>json.load\<close>: it is absent, or not parseable, or a
    document whose objects may lack any key. A key that is present holds a value
    of the type the schema gives it.
\<close>

record patient =
  patient_id :: int
  name :: string
  contact :: string

record 'p service =
  service_id :: int
  service_name :: string
  price :: 'p

record 'p bill =
  bill_id :: int
  bill_patient_id :: int
  services_rendered :: "'p service list"
  bill_date :: string
  total_amount :: 'p

record 'p state =
  patients :: "(int \<times> patient) list"
  services :: "(int \<times> 'p service) list"
  bills :: "(int \<times> 'p bill) list"
  next_patient_id :: int
  next_service_id :: int
  next_bill_id :: int

subsection \<open>The persisted document\<close>

text \<open>
  Each JSON object is a record of optional fields: \<open>None\<close> means the key is absent,
  and subscripting it raises \<^verbatim>\<open>KeyError\<close>.
\<close>

record patient_dict =
  pd_patient_id :: "int option"
  pd_name :: "string option"
  pd_contact :: "string option"

record 'p service_dict =
  sd_service_id :: "int option"
  sd_name :: "string option"
  sd_price :: "'p option"

record 'p bill_dict =
  bd_bill_id :: "int option"
  bd_patient_id :: "int option"
  bd_services_rendered :: "'p service_dict list option"
  bd_bill_date :: "string option"
  bd_total_amount :: "'p option"

record 'p document =
  doc_patients :: "patient_dict list option"
  doc_services :: "'p service_dict list option"
  doc_bills :: "'p bill_dict list option"

datatype 'p file_content = Unparseable | Document "'p document"

datatype error = KeyError string | JSONDecodeError | ValueError

section \<open>The data classes\<close>

definition Patient_to_dict :: "patient \<Rightarrow> patient_dict" where
  "Patient_to_dict p =
     \<lparr>pd_patient_id = Some (patient_id p), pd_name = Some (name p),
      pd_contact = Some (contact p)\<rparr>"

definition Patient_from_dict :: "patient_dict \<Rightarrow> error + patient" where
  "Patient_from_dict data =
     (case pd_patient_id data of None \<Rightarrow> Inl (KeyError ''patient_id'') | Some i \<Rightarrow>
     (case pd_name data of None \<Rightarrow> Inl (KeyError ''name'') | Some n \<Rightarrow>
     (case pd_contact data of None \<Rightarrow> Inl (KeyError ''contact'') | Some c \<Rightarrow>
        Inr \<lparr>patient_id = i, name = n, contact = c\<rparr>)))"

definition Service_to_dict :: "'p service \<Rightarrow> 'p service_dict" where
  "Service_to_dict s =
     \<lparr>sd_service_id = Some (service_id s), sd_name = Some (service_name s),
      sd_price = Some (price s)\<rparr>"

definition Service_from_dict :: "'p service_dict \<Rightarrow> error + 'p service" where
  "Service_from_dict data =
     (case sd_service_id data of None \<Rightarrow> Inl (KeyError ''service_id'') | Some i \<Rightarrow>
     (case sd_name data of None \<Rightarrow> Inl (KeyError ''name'') | Some n \<Rightarrow>
     (case sd_price data of None \<Rightarrow> Inl (KeyError ''price'') | Some c \<Rightarrow>
        Inr \<lparr>service_id = i, service_name = n, price = c\<rparr>)))"

text \<open>\<^verbatim>\<open>sum(service.price for service in self.services_rendered)\<close>: left to right, from 0.\<close>

definition calculate_total :: "('p::{zero,plus}) service list \<Rightarrow> 'p" where
  "calculate_total svs = foldl (+) 0 (map price svs)"

text \<open>The constructor \<^verbatim>\<open>Bill.__init__\<close>: four arguments, the total is computed.\<close>

definition Bill_init :: "int \<Rightarrow> int \<Rightarrow> ('p::{zero,plus}) service list \<Rightarrow> string \<Rightarrow> 'p bill" where
  "Bill_init bid pid svs date =
     \<lparr>bill_id = bid, bill_patient_id = pid, services_rendered = svs,
      bill_date = date, total_amount = calculate_total svs\<rparr>"

definition Bill_to_dict :: "'p bill \<Rightarrow> 'p bill_dict" where
  "Bill_to_dict b =
     \<lparr>bd_bill_id = Some (bill_id b), bd_patient_id = Some (bill_patient_id b),
      bd_services_rendered = Some (map Service_to_dict (services_rendered b)),
      bd_bill_date = Some (bill_date b), bd_total_amount = Some (total_amount b)\<rparr>"

text \<open>A list comprehension whose body may raise: the first exception ends it.\<close>

fun map_err :: "('a \<Rightarrow> error + 'b) \<Rightarrow> 'a list \<Rightarrow> error + 'b list" where
  "map_err f [] = Inr []"
| "map_err f (x # xs) =
     (case f x of Inl e \<Rightarrow> Inl e | Inr y \<Rightarrow>
     (case map_err f xs of Inl e \<Rightarrow> Inl e | Inr ys \<Rightarrow> Inr (y # ys)))"

text \<open>\<^verbatim>\<open>Bill.from_dict\<close> never reads the key \<^verbatim>\<open>total_amount\<close>.\<close>

definition Bill_from_dict :: "('p::{zero,plus}) bill_dict \<Rightarrow> error + 'p bill" where
  "Bill_from_dict data =
     (case bd_services_rendered data of None \<Rightarrow> Inl (KeyError ''services_rendered'') | Some sds \<Rightarrow>
     (case map_err Service_from_dict sds of Inl e \<Rightarrow> Inl e | Inr svs \<Rightarrow>
     (case bd_bill_id data of None \<Rightarrow> Inl (KeyError ''bill_id'') | Some bid \<Rightarrow>
     (case bd_patient_id data of None \<Rightarrow> Inl (KeyError ''patient_id'') | Some pid \<Rightarrow>
     (case bd_bill_date data of None \<Rightarrow> Inl (KeyError ''bill_date'') | Some d \<Rightarrow>
        Inr (Bill_init bid pid svs d))))))"

section \<open>The system class\<close>

text \<open>
  A dictionary comprehension \<^verbatim>\<open>{key(x): value(x) for x in xs}\<close>: for each element the
  key is evaluated, then the value, then the pair is stored.
\<close>

fun dict_comp ::
  "('a \<Rightarrow> error + int) \<Rightarrow> ('a \<Rightarrow> error + 'b) \<Rightarrow> 'a list \<Rightarrow> (int \<times> 'b) list \<Rightarrow> error + (int \<times> 'b) list"
where
  "dict_comp key val [] acc = Inr acc"
| "dict_comp key val (x # xs) acc =
     (case key x of Inl e \<Rightarrow> Inl e | Inr k \<Rightarrow>
     (case val x of Inl e \<Rightarrow> Inl e | Inr v \<Rightarrow>
        dict_comp key val xs (AList.update k v acc)))"

definition subscript :: "string \<Rightarrow> 'a option \<Rightarrow> error + 'a" where
  "subscript k field = (case field of None \<Rightarrow> Inl (KeyError k) | Some v \<Rightarrow> Inr v)"

text \<open>\<^verbatim>\<open>data.get(key, [])\<close>\<close>

definition get_default :: "'a list option \<Rightarrow> 'a list" where
  "get_default field = (case field of None \<Rightarrow> [] | Some xs \<Rightarrow> xs)"

text \<open>Python's \<^verbatim>\<open>max\<close> of a list raises \<^verbatim>\<open>ValueError\<close> on the empty list.\<close>

fun py_max :: "int list \<Rightarrow> error + int" where
  "py_max [] = Inl ValueError"
| "py_max (x # xs) = Inr (foldl max x xs)"

definition next_id_after :: "(int \<times> 'b) list \<Rightarrow> error + int" where
  "next_id_after d = (case py_max (map fst d @ [1]) of Inl e \<Rightarrow> Inl e | Inr m \<Rightarrow> Inr (m + 1))"

text \<open>
  \<^verbatim>\<open>load_data\<close>. The argument \<open>file\<close> is what is found at \<^verbatim>\<open>self.data_file\<close>:
  \<open>None\<close> when \<^verbatim>\<open>os.path.exists\<close> is false. An exception leaves \<^verbatim>\<open>__init__\<close>, the only
  caller, without an object, so the error result carries no state.
\<close>

definition load_data :: "('p::{zero,plus}) file_content option \<Rightarrow> 'p state \<Rightarrow> error + 'p state" where
  "load_data file s =
     (case file of
        None \<Rightarrow> Inr s
      | Some Unparseable \<Rightarrow> Inl JSONDecodeError
      | Some (Document data) \<Rightarrow>
         (case dict_comp (\<lambda>p. subscript ''patient_id'' (pd_patient_id p)) Patient_from_dict
                 (get_default (doc_patients data)) [] of Inl e \<Rightarrow> Inl e | Inr ps \<Rightarrow>
         (case dict_comp (\<lambda>s. subscript ''service_id'' (sd_service_id s)) Service_from_dict
                 (get_default (doc_services data)) [] of Inl e \<Rightarrow> Inl e | Inr ss \<Rightarrow>
         (case dict_comp (\<lambda>b. subscript ''bill_id'' (bd_bill_id b)) Bill_from_dict
                 (get_default (doc_bills data)) [] of Inl e \<Rightarrow> Inl e | Inr bs \<Rightarrow>
         (case next_id_after ps of Inl e \<Rightarrow> Inl e | Inr np \<Rightarrow>
         (case next_id_after ss of Inl e \<Rightarrow> Inl e | Inr ns \<Rightarrow>
         (case next_id_after bs of Inl e \<Rightarrow> Inl e | Inr nb \<Rightarrow>
            Inr (s\<lparr>patients := ps, services := ss, bills := bs,
                   next_patient_id := np, next_service_id := ns, next_bill_id := nb\<rparr>))))))))"

definition empty_state :: "'p state" where
  "empty_state =
     \<lparr>patients = [], services = [], bills = [],
      next_patient_id = 1, next_service_id = 1, next_bill_id = 1\<rparr>"

text \<open>\<^verbatim>\<open>HospitalBillingSystem.__init__\<close>\<close>

definition HospitalBillingSystem_init :: "('p::{zero,plus}) file_content option \<Rightarrow> error + 'p state" where
  "HospitalBillingSystem_init file = load_data file empty_state"

text \<open>\<^verbatim>\<open>save_data\<close> returns the document that \<^verbatim>\<open>json.dump\<close> is given.\<close>

definition save_data :: "'p state \<Rightarrow> 'p document" where
  "save_data s =
     \<lparr>doc_patients = Some (map (\<lambda>kv. Patient_to_dict (snd kv)) (patients s)),
      doc_services = Some (map (\<lambda>kv. Service_to_dict (snd kv)) (services s)),
      doc_bills = Some (map (\<lambda>kv. Bill_to_dict (snd kv)) (bills s))\<rparr>"

text \<open>
  \<^verbatim>\<open>add_patient\<close> and \<^verbatim>\<open>add_service\<close> have no \<^verbatim>\<open>return\<close> statement: the value of the
  call is Python's \<^verbatim>\<open>None\<close>, the first component of the result.
\<close>

definition add_patient :: "string \<Rightarrow> string \<Rightarrow> 'p state \<Rightarrow> patient option \<times> 'p state" where
  "add_patient nm ct s =
     (let pid = next_patient_id s;
          p = \<lparr>patient_id = pid, name = nm, contact = ct\<rparr>
      in (None, s\<lparr>patients := AList.update pid p (patients s),
                  next_patient_id := next_patient_id s + 1\<rparr>))"

definition get_patient :: "'p state \<Rightarrow> int \<Rightarrow> patient option" where
  "get_patient s pid = map_of (patients s) pid"

definition add_service :: "string \<Rightarrow> 'p \<Rightarrow> 'p state \<Rightarrow> 'p service option \<times> 'p state" where
  "add_service nm pr s =
     (let sid = next_service_id s;
          sv = \<lparr>service_id = sid, service_name = nm, price = pr\<rparr>
      in (None, s\<lparr>services := AList.update sid sv (services s),
                  next_service_id := next_service_id s + 1\<rparr>))"

definition get_service :: "'p state \<Rightarrow> int \<Rightarrow> 'p service option" where
  "get_service s sid = map_of (services s) sid"

definition get_bill :: "'p state \<Rightarrow> int \<Rightarrow> 'p bill option" where
  "get_bill s bid = map_of (bills s) bid"

text \<open>The loop of \<^verbatim>\<open>create_bill\<close>; \<open>acc\<close> is \<^verbatim>\<open>services_to_bill\<close>.\<close>

fun collect_services :: "'p state \<Rightarrow> int list \<Rightarrow> 'p service list \<Rightarrow> 'p service list" where
  "collect_services s [] acc = acc"
| "collect_services s (s_id # rest) acc =
     (case get_service s s_id of
        Some sv \<Rightarrow> collect_services s rest (acc @ [sv])
      | None \<Rightarrow> collect_services s rest acc)"

definition create_bill ::
  "int \<Rightarrow> int list \<Rightarrow> string \<Rightarrow> ('p::{zero,plus}) state \<Rightarrow> 'p bill option \<times> 'p state" where
  "create_bill pid service_ids now s =
     (if map_of (patients s) pid = None then (None, s)
      else
        let services_to_bill = collect_services s service_ids [] in
        if services_to_bill = [] then (None, s)
        else
          let bid = next_bill_id s;
              b = Bill_init bid pid services_to_bill now
          in (Some b, s\<lparr>bills := AList.update bid b (bills s),
                        next_bill_id := next_bill_id s + 1\<rparr>))"

section \<open>Service objects and references\<close>

text \<open>
  In Python a Service is an object, and the registry and a bill hold references to it.
  The records above are the values of such objects, which is all the operations of
  the program can observe, since none of them assigns to an attribute of a Service.
  To decide what a bill shares with the registry, the billing path is modelled a
  second time with the Service objects in an explicit heap: a reference is an address,
  the constructor \<^verbatim>\<open>Service(...)\<close> takes the next free address, and the registry and the
  bills hold addresses. Patients and the fields of a bill are kept as values.
\<close>

type_synonym ref = nat

record 'p hbill =
  hb_bill_id :: int
  hb_patient_id :: int
  hb_services_rendered :: "ref list"
  hb_bill_date :: string
  hb_total_amount :: 'p

record 'p hstate =
  heap :: "ref \<Rightarrow> 'p service"
  next_ref :: ref
  h_patients :: "(int \<times> patient) list"
  h_services :: "(int \<times> ref) list"
  h_bills :: "(int \<times> 'p hbill) list"
  h_next_patient_id :: int
  h_next_service_id :: int
  h_next_bill_id :: int

text \<open>\<^verbatim>\<open>add_patient\<close>, \<^verbatim>\<open>add_service\<close>, \<^verbatim>\<open>get_service\<close> and \<^verbatim>\<open>create_bill\<close> over the heap.\<close>

definition h_empty_state :: "('p::zero) hstate" where
  "h_empty_state =
     \<lparr>heap = (\<lambda>r. \<lparr>service_id = 0, service_name = [], price = 0\<rparr>), next_ref = 0,
      h_patients = [], h_services = [], h_bills = [],
      h_next_patient_id = 1, h_next_service_id = 1, h_next_bill_id = 1\<rparr>"

definition h_add_patient :: "string \<Rightarrow> string \<Rightarrow> 'p hstate \<Rightarrow> 'p hstate" where
  "h_add_patient nm ct s =
     (let pid = h_next_patient_id s;
          p = \<lparr>patient_id = pid, name = nm, contact = ct\<rparr>
      in s\<lparr>h_patients := AList.update pid p (h_patients s),
           h_next_patient_id := h_next_patient_id s + 1\<rparr>)"

definition h_add_service :: "string \<Rightarrow> 'p \<Rightarrow> 'p hstate \<Rightarrow> 'p hstate" where
  "h_add_service nm pr s =
     (let sid = h_next_service_id s;
          r = next_ref s
      in s\<lparr>heap := (heap s)(r := \<lparr>service_id = sid, service_name = nm, price = pr\<rparr>),
           next_ref := r + 1,
           h_services := AList.update sid r (h_services s),
           h_next_service_id := h_next_service_id s + 1\<rparr>)"

definition h_get_service :: "'p hstate \<Rightarrow> int \<Rightarrow> ref option" where
  "h_get_service s sid = map_of (h_services s) sid"

fun h_collect_services :: "'p hstate \<Rightarrow> int list \<Rightarrow> ref list \<Rightarrow> ref list" where
  "h_collect_services s [] acc = acc"
| "h_collect_services s (s_id # rest) acc =
     (case h_get_service s s_id of
        Some r \<Rightarrow> h_collect_services s rest (acc @ [r])
      | None \<Rightarrow> h_collect_services s rest acc)"

definition h_calculate_total :: "('p::{zero,plus}) hstate \<Rightarrow> ref list \<Rightarrow> 'p" where
  "h_calculate_total s refs = foldl (+) 0 (map (\<lambda>r. price (heap s r)) refs)"

definition h_create_bill ::
  "int \<Rightarrow> int list \<Rightarrow> string \<Rightarrow> ('p::{zero,plus}) hstate \<Rightarrow> 'p hbill option \<times> 'p hstate" where
  "h_create_bill pid service_ids now s =
     (if map_of (h_patients s) pid = None then (None, s)
      else
        let services_to_bill = h_collect_services s service_ids [] in
        if services_to_bill = [] then (None, s)
        else
          let bid = h_next_bill_id s;
              b = \<lparr>hb_bill_id = bid, hb_patient_id = pid, hb_services_rendered = services_to_bill,
                   hb_bill_date = now, hb_total_amount = h_calculate_total s services_to_bill\<rparr>
          in (Some b, s\<lparr>h_bills := AList.update bid b (h_bills s),
                        h_next_bill_id := h_next_bill_id s + 1\<rparr>))"

text \<open>
  The program itself never changes a Service. What a later change can be is what Python
  offers to a caller that holds the store: assigning to the attributes of the object
  that the registry holds under an id (\<^verbatim>\<open>services[sid].name = nm; services[sid].price = pr\<close>),
  and storing a new object under the id (\<^verbatim>\<open>services[sid] = Service(sid, nm, pr)\<close>).
\<close>

definition assign_service :: "int \<Rightarrow> string \<Rightarrow> 'p \<Rightarrow> 'p hstate \<Rightarrow> error + 'p hstate" where
  "assign_service sid nm pr s =
     (case map_of (h_services s) sid of
        None \<Rightarrow> Inl (KeyError ''service_id'')
      | Some r \<Rightarrow> Inr (s\<lparr>heap := (heap s)(r := (heap s r)\<lparr>service_name := nm, price := pr\<rparr>)\<rparr>))"

definition replace_service :: "int \<Rightarrow> string \<Rightarrow> 'p \<Rightarrow> 'p hstate \<Rightarrow> 'p hstate" where
  "replace_service sid nm pr s =
     (let r = next_ref s
      in s\<lparr>heap := (heap s)(r := \<lparr>service_id = sid, service_name = nm, price = pr\<rparr>),
           next_ref := r + 1,
           h_services := AList.update sid r (h_services s)\<rparr>)"

text \<open>
  What a reader of a bill sees as its line items, and the store of values that a heap
  store stands for.
\<close>

definition line_items :: "'p hstate \<Rightarrow> 'p hbill \<Rightarrow> 'p service list" where
  "line_items s b = map (heap s) (hb_services_rendered b)"

definition abs_bill :: "'p hstate \<Rightarrow> 'p hbill \<Rightarrow> 'p bill" where
  "abs_bill s b =
     \<lparr>bill_id = hb_bill_id b, bill_patient_id = hb_patient_id b,
      services_rendered = line_items s b, bill_date = hb_bill_date b,
      total_amount = hb_total_amount b\<rparr>"

definition abs_state :: "'p hstate \<Rightarrow> 'p state" where
  "abs_state s =
     \<lparr>patients = h_patients s,
      services = map (\<lambda>kr. (fst kr, heap s (snd kr))) (h_services s),
      bills = map (\<lambda>kb. (fst kb, abs_bill s (snd kb))) (h_bills s),
      next_patient_id = h_next_patient_id s,
      next_service_id = h_next_service_id s,
      next_bill_id = h_next_bill_id s\<rparr>"

text \<open>Every reference held by the registry or by a bill has been handed out.\<close>

definition refs_allocated :: "'p hstate \<Rightarrow> bool" where
  "refs_allocated s \<longleftrightarrow>
     list_all (\<lambda>kr. snd kr < next_ref s) (h_services s)
     \<and> list_all (\<lambda>kb. list_all (\<lambda>r. r < next_ref s) (hb_services_rendered (snd kb))) (h_bills s)"

section \<open>Sequences of calls\<close>

text \<open>
  A caller that performs the same operation several times, as the menu loop does on
  the user's request: \<open>add_patient\<close> once per (name, contact), \<open>add_service\<close> once
  per (name, price), \<open>create_bill\<close> once per (patient id, service ids, timestamp),
  keeping what each \<open>create_bill\<close> returned. \<open>created\<close> selects the bills among those
  results, the calls that succeeded.
\<close>

definition add_patients :: "(string \<times> string) list \<Rightarrow> 'p state \<Rightarrow> 'p state" where
  "add_patients args s = foldl (\<lambda>t a. snd (add_patient (fst a) (snd a) t)) s args"

definition add_services :: "(string \<times> 'p) list \<Rightarrow> 'p state \<Rightarrow> 'p state" where
  "add_services args s = foldl (\<lambda>t a. snd (add_service (fst a) (snd a) t)) s args"

fun create_bills ::
  "(int \<times> int list \<times> string) list \<Rightarrow> ('p::{zero,plus}) state \<Rightarrow> 'p bill option list \<times> 'p state" where
  "create_bills [] s = ([], s)"
| "create_bills (c # cs) s =
     (let r = create_bill (fst c) (fst (snd c)) (snd (snd c)) s;
          rest = create_bills cs (snd r)
      in (fst r # fst rest, snd rest))"

definition created :: "'a option list \<Rightarrow> 'a list" where
  "created rs = List.map_filter (\<lambda>r. r) rs"

section \<open>Concrete stores used as examples\<close>

text \<open>One patient and the two services of the specification's example, built by the operations.\<close>

definition example_store :: "real state" where
  "example_store =
     snd (add_service ''Consult'' 50
       (snd (add_service ''X-Ray'' 100
         (snd (add_patient ''Ann'' ''555-0100'' empty_state)))))"

text \<open>A file with patients 3 and 7, an empty array of services and no array of bills.\<close>

definition sparse_doc :: "real document" where
  "sparse_doc =
     \<lparr>doc_patients = Some
        [\<lparr>pd_patient_id = Some 3, pd_name = Some ''Bo'', pd_contact = Some ''555-0103''\<rparr>,
         \<lparr>pd_patient_id = Some 7, pd_name = Some ''Cy'', pd_contact = Some ''555-0107''\<rparr>],
      doc_services = Some [],
      doc_bills = None\<rparr>"

text \<open>
  A file whose only bill stores the total 999 over one line item priced 100, and the
  store that loading it yields.
\<close>

definition tampered_bill :: "real bill_dict" where
  "tampered_bill =
     \<lparr>bd_bill_id = Some 1, bd_patient_id = Some 1,
      bd_services_rendered = Some
        [\<lparr>sd_service_id = Some 1, sd_name = Some ''X-Ray'', sd_price = Some 100\<rparr>],
      bd_bill_date = Some ''2024-01-01 10:00:00'',
      bd_total_amount = Some 999\<rparr>"

definition tampered_doc :: "real document" where
  "tampered_doc =
     \<lparr>doc_patients = Some
        [\<lparr>pd_patient_id = Some 1, pd_name = Some ''Ann'', pd_contact = Some ''555-0100''\<rparr>],
      doc_services = Some
        [\<lparr>sd_service_id = Some 1, sd_name = Some ''X-Ray'', sd_price = Some 100\<rparr>],
      doc_bills = Some [tampered_bill]\<rparr>"

definition tampered_loaded :: "real state" where
  "tampered_loaded =
     \<lparr>patients = [(1, \<lparr>patient_id = 1, name = ''Ann'', contact = ''555-0100''\<rparr>)],
      services = [(1, \<lparr>service_id = 1, service_name = ''X-Ray'', price = 100\<rparr>)],
      bills = [(1, \<lparr>bill_id = 1, bill_patient_id = 1,
                    services_rendered = [\<lparr>service_id = 1, service_name = ''X-Ray'', price = 100\<rparr>],
                    bill_date = ''2024-01-01 10:00:00'', total_amount = 100\<rparr>)],
      next_patient_id = 2, next_service_id = 2, next_bill_id = 2\<rparr>"

text \<open>A file whose only bill has an empty array of line items, and the store it loads to.\<close>

definition empty_bill_doc :: "real document" where
  "empty_bill_doc =
     \<lparr>doc_patients = Some
        [\<lparr>pd_patient_id = Some 1, pd_name = Some ''Ann'', pd_contact = Some ''555-0100''\<rparr>],
      doc_services = Some [],
      doc_bills = Some
        [\<lparr>bd_bill_id = Some 1, bd_patient_id = Some 1, bd_services_rendered = Some [],
          bd_bill_date = Some ''2024-01-01 10:00:00'', bd_total_amount = Some 0\<rparr>]\<rparr>"

definition empty_bill_loaded :: "real state" where
  "empty_bill_loaded =
     \<lparr>patients = [(1, \<lparr>patient_id = 1, name = ''Ann'', contact = ''555-0100''\<rparr>)],
      services = [],
      bills = [(1, \<lparr>bill_id = 1, bill_patient_id = 1, services_rendered = [],
                    bill_date = ''2024-01-01 10:00:00'', total_amount = 0\<rparr>)],
      next_patient_id = 2, next_service_id = 2, next_bill_id = 2\<rparr>"

text \<open>The example store after the bill of the specification's example has been created.\<close>

definition example_billed :: "real state" where
  "example_billed = snd (create_bill 1 [1, 2, 2] ''2024-01-01 10:00:00'' example_store)"

text \<open>Four calls of \<open>create_bill\<close>: the second names no patient, the third no service.\<close>

definition example_calls :: "(int \<times> int list \<times> string) list" where
  "example_calls =
     [(1, [1], ''2024-01-01 10:00:00''), (9, [1], ''2024-01-01 10:05:00''),
      (1, [7], ''2024-01-01 10:10:00''), (1, [2, 2], ''2024-01-01 10:15:00'')]"

text \<open>
  The example store over the heap, the bill of the example created in it, and that
  store after the price of service 1 has been assigned 500.
\<close>

definition h_example_store :: "real hstate" where
  "h_example_store =
     h_add_service ''Consult'' 50
       (h_add_service ''X-Ray'' 100
         (h_add_patient ''Ann'' ''555-0100'' h_empty_state))"

definition h_example_billed :: "real hstate" where
  "h_example_billed = snd (h_create_bill 1 [1, 2, 2] ''2024-01-01 10:00:00'' h_example_store)"

definition h_example_bill :: "real hbill" where
  "h_example_bill =
     \<lparr>hb_bill_id = 1, hb_patient_id = 1, hb_services_rendered = [0, 1, 1],
      hb_bill_date = ''2024-01-01 10:00:00'', hb_total_amount = 200\<rparr>"

definition h_example_repriced :: "real hstate" where
  "h_example_repriced =
     h_example_billed\<lparr>heap := (heap h_example_billed)
        (0 := \<lparr>service_id = 1, service_name = ''X-Ray'', price = 500\<rparr>)\<rparr>"

section \<open>Reachable stores\<close>

text \<open>
  The stores a program can hold: the constructor's result on any file, and from there
  any sequence of the public operations.
\<close>

inductive reachable :: "('p::{zero,plus}) state \<Rightarrow> bool" where
  r_init: "HospitalBillingSystem_init file = Inr s \<Longrightarrow> reachable s"
| r_load: "reachable s \<Longrightarrow> load_data file s = Inr s' \<Longrightarrow> reachable s'"
| r_add_patient: "reachable s \<Longrightarrow> reachable (snd (add_patient nm ct s))"
| r_add_service: "reachable s \<Longrightarrow> reachable (snd (add_service nm pr s))"
| r_create_bill: "reachable s \<Longrightarrow> reachable (snd (create_bill pid service_ids now s))"

section \<open>Invariants\<close>

text \<open>
  What holds of a registry and its counter in every reachable store: the keys are
  distinct, every record is filed under its own id, and the counter is 1 over an empty
  registry that was never loaded, and otherwise one more than the greatest of 1 and the
  keys. Every key is then below the counter.
\<close>

definition registry_ok :: "('v \<Rightarrow> int) \<Rightarrow> (int \<times> 'v) list \<Rightarrow> int \<Rightarrow> bool" where
  "registry_ok idf reg n \<longleftrightarrow>
     distinct (map fst reg) \<and> list_all (\<lambda>kv. idf (snd kv) = fst kv) reg
     \<and> ((reg = [] \<and> n = 1) \<or> n = Max (insert 1 (fst ` set reg)) + 1)"

definition ids_below :: "(int \<times> 'v) list \<Rightarrow> int \<Rightarrow> bool" where
  "ids_below reg n = list_all (\<lambda>kv. fst kv < n) reg"

definition state_ok :: "('p::{zero,plus}) state \<Rightarrow> bool" where
  "state_ok s \<longleftrightarrow>
     registry_ok patient_id (patients s) (next_patient_id s)
     \<and> registry_ok service_id (services s) (next_service_id s)
     \<and> registry_ok bill_id (bills s) (next_bill_id s)
     \<and> list_all (\<lambda>kv. total_amount (snd kv) = calculate_total (services_rendered (snd kv))) (bills s)"

section \<open>Auxiliary facts\<close>

lemma collect_services_acc:
  "collect_services s ids acc = acc @ List.map_filter (get_service s) ids"
  by (induction ids arbitrary: acc) (auto split: option.splits)

lemma map_filter_eq_Nil:
  "List.map_filter f xs = [] \<longleftrightarrow> (\<forall>x\<in>set xs. f x = None)"
  by (induction xs) (auto split: option.splits)

lemma example_store_eq:
  "example_store =
     \<lparr>patients = [(1, \<lparr>patient_id = 1, name = ''Ann'', contact = ''555-0100''\<rparr>)],
      services = [(1, \<lparr>service_id = 1, service_name = ''X-Ray'', price = 100\<rparr>),
                  (2, \<lparr>service_id = 2, service_name = ''Consult'', price = 50\<rparr>)],
      bills = [], next_patient_id = 2, next_service_id = 3, next_bill_id = 1\<rparr>"
  by (simp add: example_store_def add_service_def add_patient_def empty_state_def Let_def)

lemma foldl_max_Max: "foldl max (x::int) xs = Max (set (x # xs))"
proof -
  have "(\<lambda>a s. max s a) = (max :: int \<Rightarrow> int \<Rightarrow> int)"
    by (intro ext) (simp add: max.commute)
  then have "foldl max x xs = fold max xs x"
    by (simp add: foldl_conv_fold)
  then show ?thesis using Max.set_eq_fold [of x xs] by simp
qed

lemma py_max_default: "py_max (ks @ [1]) = Inr (Max (insert 1 (set ks)))"
proof (cases ks)
  case Nil
  then show ?thesis by simp
next
  case (Cons k rest)
  have "insert k (insert 1 (set rest)) = insert 1 (insert k (set rest))" by blast
  then show ?thesis by (simp add: Cons foldl_max_Max)
qed

lemma next_id_after_eq: "next_id_after d = Inr (Max (insert 1 (fst ` set d)) + 1)"
  by (simp add: next_id_after_def py_max_default)

lemma set_update_subset: "set (AList.update k v al) \<subseteq> insert (k, v) (set al)"
  by (induction al) auto

lemma dict_comp_values:
  assumes "dict_comp key val xs acc = Inr d"
    and "\<forall>v\<in>snd ` set acc. P v"
    and "\<forall>x\<in>set xs. \<forall>v. val x = Inr v \<longrightarrow> P v"
  shows "\<forall>v\<in>snd ` set d. P v"
  using assms
proof (induction xs arbitrary: acc)
  case Nil
  then show ?case by simp
next
  case (Cons x xs)
  from Cons.prems(1) obtain k v where k: "key x = Inr k" and v: "val x = Inr v"
    and rest: "dict_comp key val xs (AList.update k v acc) = Inr d"
    by (auto split: sum.splits)
  have "P v" using Cons.prems(3) v by simp
  with Cons.prems(2) have upd: "\<forall>w\<in>snd ` set (AList.update k v acc). P w"
    using set_update_subset [of k v acc] by fastforce
  have tl: "\<forall>y\<in>set xs. \<forall>w. val y = Inr w \<longrightarrow> P w"
    using Cons.prems(3) by simp
  show ?case by (rule Cons.IH [OF rest upd tl])
qed

lemma dict_comp_keys:
  assumes "dict_comp key val xs acc = Inr d"
  shows "fst ` set d = fst ` set acc \<union> {k. \<exists>x\<in>set xs. key x = Inr k}"
  using assms
proof (induction xs arbitrary: acc)
  case Nil
  then show ?case by simp
next
  case (Cons x xs)
  from Cons.prems obtain k v where k: "key x = Inr k" and v: "val x = Inr v"
    and rest: "dict_comp key val xs (AList.update k v acc) = Inr d"
    by (auto split: sum.splits)
  from Cons.IH [OF rest] k show ?case
    by (auto simp: AList.dom_update)
qed

lemma subscript_keys:
  "{k. \<exists>x\<in>set xs. subscript nm (f x) = Inr k} = set (List.map_filter f xs)"
  by (induction xs) (auto simp: subscript_def split: option.splits)

lemma load_data_DocumentE:
  assumes "load_data (Some (Document data)) s = Inr s'"
  obtains ps ss bs where
    "dict_comp (\<lambda>p. subscript ''patient_id'' (pd_patient_id p)) Patient_from_dict
       (get_default (doc_patients data)) [] = Inr ps"
    "dict_comp (\<lambda>s. subscript ''service_id'' (sd_service_id s)) Service_from_dict
       (get_default (doc_services data)) [] = Inr ss"
    "dict_comp (\<lambda>b. subscript ''bill_id'' (bd_bill_id b)) Bill_from_dict
       (get_default (doc_bills data)) [] = Inr bs"
    "s' = s\<lparr>patients := ps, services := ss, bills := bs,
            next_patient_id := Max (insert 1 (fst ` set ps)) + 1,
            next_service_id := Max (insert 1 (fst ` set ss)) + 1,
            next_bill_id := Max (insert 1 (fst ` set bs)) + 1\<rparr>"
  using assms
  by (auto simp: load_data_def next_id_after_eq split: sum.splits)

lemma dict_comp_map:
  "dict_comp key val (map g xs) acc = dict_comp (\<lambda>x. key (g x)) (\<lambda>x. val (g x)) xs acc"
  by (induction xs arbitrary: acc) (auto split: sum.splits)

lemma map_err_prices:
  "map_err Service_from_dict sds = Inr svs \<Longrightarrow> map sd_price sds = map (\<lambda>sv. Some (price sv)) svs"
  by (induction sds arbitrary: svs)
     (auto simp: Service_from_dict_def split: sum.splits option.splits)

lemma Bill_from_dict_total:
  assumes "Bill_from_dict data = Inr b"
  shows "total_amount b = foldl (+) 0 (map price (services_rendered b))"
  using assms
  by (auto simp: Bill_from_dict_def Bill_init_def calculate_total_def
      split: option.splits sum.splits)

lemma Bill_from_dict_items:
  assumes "Bill_from_dict data = Inr b"
  shows "\<exists>sds. bd_services_rendered data = Some sds
           \<and> map sd_price sds = map (\<lambda>sv. Some (price sv)) (services_rendered b)"
  using assms
  by (auto simp: Bill_from_dict_def Bill_init_def dest: map_err_prices
      split: option.splits sum.splits)

lemma Bill_from_dict_ignores_total:
  "Bill_from_dict (data\<lparr>bd_total_amount := t\<rparr>) = Bill_from_dict data"
  by (simp add: Bill_from_dict_def cong: option.case_cong sum.case_cong)

lemma tampered_load:
  "HospitalBillingSystem_init (Some (Document tampered_doc)) = Inr tampered_loaded"
  by (simp add: HospitalBillingSystem_init_def load_data_def tampered_doc_def tampered_bill_def
      tampered_loaded_def empty_state_def get_default_def subscript_def Patient_from_dict_def
      Service_from_dict_def Bill_from_dict_def Bill_init_def calculate_total_def next_id_after_def)

lemma load_data_cases:
  assumes "load_data file s = Inr s'"
  shows "(file = None \<and> s' = s) \<or> (\<exists>data. file = Some (Document data))"
  using assms by (auto simp: load_data_def split: option.splits file_content.splits)

lemma load_data_bills:
  assumes "load_data file s = Inr s'"
    and "\<forall>b\<in>snd ` set (bills s). Q b"
    and "\<forall>data b. Bill_from_dict data = Inr b \<longrightarrow> Q b"
  shows "\<forall>b\<in>snd ` set (bills s'). Q b"
proof -
  from load_data_cases [OF assms(1)] show ?thesis
  proof (elim disjE conjE exE)
    assume "file = None" "s' = s"
    with assms(2) show ?thesis by simp
  next
    fix data assume f: "file = Some (Document data)"
    from assms(1) [unfolded f] obtain ps ss bs where
      bs: "dict_comp (\<lambda>b. subscript ''bill_id'' (bd_bill_id b)) Bill_from_dict
         (get_default (doc_bills data)) [] = Inr bs"
      and s': "s' = s\<lparr>patients := ps, services := ss, bills := bs,
            next_patient_id := Max (insert 1 (fst ` set ps)) + 1,
            next_service_id := Max (insert 1 (fst ` set ss)) + 1,
            next_bill_id := Max (insert 1 (fst ` set bs)) + 1\<rparr>"
      by (rule load_data_DocumentE)
    have "\<forall>b\<in>snd ` set bs. Q b"
      by (rule dict_comp_values [OF bs]) (use assms(3) in auto)
    then show ?thesis by (simp add: s')
  qed
qed

lemma snd_set_update: "snd ` set (AList.update k v al) \<subseteq> insert v (snd ` set al)"
  by (induction al) auto

lemma create_bill_snd:
  "snd (create_bill pid service_ids now s) = s
   \<or> (\<exists>svs. svs \<noteq> [] \<and> snd (create_bill pid service_ids now s)
          = s\<lparr>bills := AList.update (next_bill_id s) (Bill_init (next_bill_id s) pid svs now) (bills s),
              next_bill_id := next_bill_id s + 1\<rparr>)"
proof (cases "map_of (patients s) pid = None \<or> collect_services s service_ids [] = []")
  case True
  then have "snd (create_bill pid service_ids now s) = s"
    by (auto simp: create_bill_def Let_def)
  then show ?thesis ..
next
  case False
  then have "collect_services s service_ids [] \<noteq> [] \<and> snd (create_bill pid service_ids now s)
          = s\<lparr>bills := AList.update (next_bill_id s)
                 (Bill_init (next_bill_id s) pid (collect_services s service_ids []) now) (bills s),
              next_bill_id := next_bill_id s + 1\<rparr>"
    by (auto simp: create_bill_def Let_def)
  then show ?thesis by blast
qed

lemma create_bill_bills:
  fixes s :: "('p::{zero,plus}) state"
  assumes old: "\<forall>b\<in>snd ` set (bills s). Q b"
    and new: "\<forall>bid svs d. svs \<noteq> [] \<longrightarrow> Q (Bill_init bid pid svs d)"
  shows "\<forall>b\<in>snd ` set (bills (snd (create_bill pid service_ids now s))). Q b"
proof -
  consider (same) "snd (create_bill pid service_ids now s) = s"
    | (upd) svs where "svs \<noteq> []"
        "snd (create_bill pid service_ids now s)
          = s\<lparr>bills := AList.update (next_bill_id s) (Bill_init (next_bill_id s) pid svs now) (bills s),
              next_bill_id := next_bill_id s + 1\<rparr>"
    using create_bill_snd [of pid service_ids now s] by blast
  then show ?thesis
  proof cases
    case same
    show ?thesis using old by (simp only: same)
  next
    case upd
    let ?b = "Bill_init (next_bill_id s) pid svs now"
    have q: "Q ?b" using new upd(1) by blast
    have bs: "bills (snd (create_bill pid service_ids now s)) = AList.update (next_bill_id s) ?b (bills s)"
      by (simp add: upd(2))
    show ?thesis
    proof
      fix b assume "b \<in> snd ` set (bills (snd (create_bill pid service_ids now s)))"
      then have "b \<in> insert ?b (snd ` set (bills s))"
        unfolding bs using snd_set_update [of "next_bill_id s" ?b "bills s"] by (rule set_mp [rotated])
      then show "Q b" using q old by blast
    qed
  qed
qed

lemma create_bill_Some:
  assumes "fst (create_bill pid service_ids now s) = Some b"
  shows "\<exists>svs. svs \<noteq> [] \<and> svs = collect_services s service_ids []
           \<and> b = Bill_init (next_bill_id s) pid svs now"
  using assms by (auto simp: create_bill_def Let_def split: if_splits)

lemma reachable_bills:
  assumes r: "reachable s"
    and ld: "\<forall>data b. Bill_from_dict data = Inr b \<longrightarrow> Q b"
    and mk: "\<forall>bid pid svs d. svs \<noteq> [] \<longrightarrow> Q (Bill_init bid pid svs d)"
  shows "\<forall>b\<in>snd ` set (bills s). Q b"
  using r
proof (induction rule: reachable.induct)
  case (r_init fl s)
  have e: "\<forall>b\<in>snd ` set (bills (empty_state :: 'a state)). Q b"
    by (simp add: empty_state_def)
  from r_init have l: "load_data fl empty_state = Inr s"
    by (simp add: HospitalBillingSystem_init_def)
  show ?case by (rule load_data_bills [OF l e ld])
next
  case (r_load s fl s')
  show ?case by (rule load_data_bills [OF r_load.hyps(2) r_load.IH ld])
next
  case (r_add_patient s nm ct)
  then show ?case by (simp add: add_patient_def Let_def)
next
  case (r_add_service s nm pr)
  then show ?case by (simp add: add_service_def Let_def)
next
  case (r_create_bill s pid service_ids now)
  have "\<forall>bid svs d. svs \<noteq> [] \<longrightarrow> Q (Bill_init bid pid svs d)"
    using mk by blast
  with r_create_bill.IH show ?case by (rule create_bill_bills)
qed

lemma empty_bill_load:
  "HospitalBillingSystem_init (Some (Document empty_bill_doc)) = Inr empty_bill_loaded"
  by (simp add: HospitalBillingSystem_init_def load_data_def empty_bill_doc_def
      empty_bill_loaded_def empty_state_def get_default_def subscript_def Patient_from_dict_def
      Bill_from_dict_def Bill_init_def calculate_total_def next_id_after_def)

lemma map_err_length: "map_err f xs = Inr ys \<Longrightarrow> length ys = length xs"
  by (induction xs arbitrary: ys) (auto split: sum.splits)

lemma Bill_from_dict_nonempty:
  assumes "Bill_from_dict data = Inr b" and "bd_services_rendered data \<noteq> Some []"
  shows "services_rendered b \<noteq> []"
proof -
  from assms(1) obtain sds svs where sds: "bd_services_rendered data = Some sds"
    and svs: "map_err Service_from_dict sds = Inr svs" and b: "services_rendered b = svs"
    by (auto simp: Bill_from_dict_def Bill_init_def split: option.splits sum.splits)
  from sds assms(2) have "sds \<noteq> []" by simp
  with map_err_length [OF svs] b show ?thesis by auto
qed

lemma create_bill_none_resolve:
  assumes "\<forall>i\<in>set service_ids. get_service s i = None"
  shows "create_bill pid service_ids now s = (None, s)"
proof -
  from assms have "collect_services s service_ids [] = []"
    by (simp add: collect_services_acc map_filter_eq_Nil)
  then show ?thesis by (simp add: create_bill_def Let_def)
qed

lemma update_append_new:
  "k \<notin> fst ` set al \<Longrightarrow> AList.update k v al = al @ [(k, v)]"
  by (induction al) auto

lemma ids_below_update:
  assumes "ids_below reg n"
  shows "AList.update n v reg = reg @ [(n, v)]"
proof -
  from assms have "n \<notin> fst ` set reg"
    by (auto simp: ids_below_def list_all_iff)
  then show ?thesis by (rule update_append_new)
qed

lemma ids_below_append:
  "ids_below reg n \<Longrightarrow> ids_below (reg @ [(n, v)]) (n + 1)"
  by (auto simp: ids_below_def list_all_iff)

lemma registry_ok_below:
  assumes "registry_ok idf reg n"
  shows "ids_below reg n"
proof -
  from assms have c: "(reg = [] \<and> n = 1) \<or> n = Max (insert 1 (fst ` set reg)) + 1"
    by (simp add: registry_ok_def)
  show ?thesis unfolding ids_below_def list_all_iff
  proof
    fix kv assume m: "kv \<in> set reg"
    then have ne: "reg \<noteq> []" by auto
    with c have n: "n = Max (insert 1 (fst ` set reg)) + 1" by blast
    have "fst kv \<le> Max (insert 1 (fst ` set reg))"
      using m by (intro Max_ge) auto
    with n show "fst kv < n" by simp
  qed
qed

lemma registry_ok_ge1:
  assumes "registry_ok idf reg n"
  shows "1 \<le> n"
proof -
  from assms have c: "(reg = [] \<and> n = 1) \<or> n = Max (insert 1 (fst ` set reg)) + 1"
    by (simp add: registry_ok_def)
  have m: "1 \<le> Max (insert 1 (fst ` set reg))" by (intro Max_ge) auto
  from c show ?thesis
  proof
    assume "reg = [] \<and> n = 1"
    then show ?thesis by simp
  next
    assume "n = Max (insert 1 (fst ` set reg)) + 1"
    with m show ?thesis by linarith
  qed
qed

lemma registry_ok_update:
  assumes ok: "registry_ok idf reg n" and idv: "idf v = n"
  shows "registry_ok idf (AList.update n v reg) (n + 1)"
proof -
  have below: "ids_below reg n" by (rule registry_ok_below [OF ok])
  have upd: "AList.update n v reg = reg @ [(n, v)]" by (rule ids_below_update [OF below])
  have notin: "n \<notin> fst ` set reg"
    using below by (auto simp: ids_below_def list_all_iff)
  have ge: "1 \<le> n" by (rule registry_ok_ge1 [OF ok])
  have "Max (insert 1 (insert n (fst ` set reg))) = n"
  proof (rule Max_eqI)
    show "finite (insert 1 (insert n (fst ` set reg)))" by simp
    show "n \<in> insert 1 (insert n (fst ` set reg))" by simp
    fix y assume "y \<in> insert 1 (insert n (fst ` set reg))"
    then show "y \<le> n"
      using ge below by (auto simp: ids_below_def list_all_iff)
  qed
  then have "n + 1 = Max (insert 1 (fst ` set (reg @ [(n, v)]))) + 1"
    by (simp add: insert_commute)
  moreover from ok have "distinct (map fst reg)" "list_all (\<lambda>kv. idf (snd kv) = fst kv) reg"
    by (simp_all add: registry_ok_def)
  ultimately show ?thesis
    using notin idv unfolding upd registry_ok_def by simp
qed

lemma dict_comp_ok:
  assumes "dict_comp key val xs acc = Inr d"
    and "distinct (map fst acc)" and "list_all (\<lambda>kv. idf (snd kv) = fst kv) acc"
    and "\<forall>x\<in>set xs. \<forall>k v. key x = Inr k \<and> val x = Inr v \<longrightarrow> idf v = k"
  shows "distinct (map fst d) \<and> list_all (\<lambda>kv. idf (snd kv) = fst kv) d"
  using assms
proof (induction xs arbitrary: acc)
  case Nil
  then show ?case by simp
next
  case (Cons x xs)
  from Cons.prems(1) obtain k v where k: "key x = Inr k" and v: "val x = Inr v"
    and rest: "dict_comp key val xs (AList.update k v acc) = Inr d"
    by (auto split: sum.splits)
  have idv: "idf v = k" using Cons.prems(4) k v by simp
  have d: "distinct (map fst (AList.update k v acc))"
    by (rule AList.distinct_update [OF Cons.prems(2)])
  have "set (AList.update k v acc) \<subseteq> insert (k, v) (set acc)"
    by (rule set_update_subset)
  with Cons.prems(3) idv have l: "list_all (\<lambda>kv. idf (snd kv) = fst kv) (AList.update k v acc)"
    unfolding list_all_iff by auto
  have tl: "\<forall>y\<in>set xs. \<forall>k v. key y = Inr k \<and> val y = Inr v \<longrightarrow> idf v = k"
    using Cons.prems(4) by simp
  show ?case by (rule Cons.IH [OF rest d l tl])
qed

lemma registry_ok_loaded:
  assumes "distinct (map fst d)" and "list_all (\<lambda>kv. idf (snd kv) = fst kv) d"
  shows "registry_ok idf d (Max (insert 1 (fst ` set d)) + 1)"
  using assms by (simp add: registry_ok_def)

lemma Patient_from_dict_id:
  "subscript nm (pd_patient_id x) = Inr k \<Longrightarrow> Patient_from_dict x = Inr v \<Longrightarrow> patient_id v = k"
  by (auto simp: subscript_def Patient_from_dict_def split: option.splits)

lemma Service_from_dict_id:
  "subscript nm (sd_service_id x) = Inr k \<Longrightarrow> Service_from_dict x = Inr v \<Longrightarrow> service_id v = k"
  by (auto simp: subscript_def Service_from_dict_def split: option.splits)

lemma Bill_from_dict_id:
  "subscript nm (bd_bill_id x) = Inr k \<Longrightarrow> Bill_from_dict x = Inr v \<Longrightarrow> bill_id v = k"
  by (auto simp: subscript_def Bill_from_dict_def Bill_init_def split: option.splits sum.splits)

lemma load_data_state_ok:
  assumes "load_data (Some (Document data)) s = Inr s'"
  shows "state_ok s'"
proof -
  from assms obtain ps ss bs where
    ps: "dict_comp (\<lambda>p. subscript ''patient_id'' (pd_patient_id p)) Patient_from_dict
       (get_default (doc_patients data)) [] = Inr ps"
    and ss: "dict_comp (\<lambda>s. subscript ''service_id'' (sd_service_id s)) Service_from_dict
       (get_default (doc_services data)) [] = Inr ss"
    and bs: "dict_comp (\<lambda>b. subscript ''bill_id'' (bd_bill_id b)) Bill_from_dict
       (get_default (doc_bills data)) [] = Inr bs"
    and s': "s' = s\<lparr>patients := ps, services := ss, bills := bs,
            next_patient_id := Max (insert 1 (fst ` set ps)) + 1,
            next_service_id := Max (insert 1 (fst ` set ss)) + 1,
            next_bill_id := Max (insert 1 (fst ` set bs)) + 1\<rparr>"
    by (rule load_data_DocumentE)
  have p: "distinct (map fst ps) \<and> list_all (\<lambda>kv. patient_id (snd kv) = fst kv) ps"
    by (rule dict_comp_ok [OF ps]) (auto dest: Patient_from_dict_id)
  have sv: "distinct (map fst ss) \<and> list_all (\<lambda>kv. service_id (snd kv) = fst kv) ss"
    by (rule dict_comp_ok [OF ss]) (auto dest: Service_from_dict_id)
  have b: "distinct (map fst bs) \<and> list_all (\<lambda>kv. bill_id (snd kv) = fst kv) bs"
    by (rule dict_comp_ok [OF bs]) (auto dest: Bill_from_dict_id)
  have "\<forall>b\<in>snd ` set bs. total_amount b = calculate_total (services_rendered b)"
    by (rule dict_comp_values [OF bs])
       (auto simp: Bill_from_dict_total calculate_total_def)
  then have t: "list_all (\<lambda>kv. total_amount (snd kv) = calculate_total (services_rendered (snd kv))) bs"
    by (simp add: list_all_iff)
  show ?thesis
    unfolding state_ok_def s'
    using p sv b t by (simp add: registry_ok_loaded)
qed

lemma empty_state_ok: "state_ok empty_state"
  by (simp add: state_ok_def registry_ok_def empty_state_def)

lemma add_patient_ok:
  assumes "state_ok s"
  shows "state_ok (snd (add_patient nm ct s))"
proof -
  from assms have "registry_ok patient_id (patients s) (next_patient_id s)"
    by (simp add: state_ok_def)
  then have "registry_ok patient_id
      (AList.update (next_patient_id s)
         \<lparr>patient_id = next_patient_id s, name = nm, contact = ct\<rparr> (patients s))
      (next_patient_id s + 1)"
    by (rule registry_ok_update) simp
  with assms show ?thesis
    by (simp add: state_ok_def add_patient_def Let_def)
qed

lemma add_service_ok:
  assumes "state_ok s"
  shows "state_ok (snd (add_service nm pr s))"
proof -
  from assms have "registry_ok service_id (services s) (next_service_id s)"
    by (simp add: state_ok_def)
  then have "registry_ok service_id
      (AList.update (next_service_id s)
         \<lparr>service_id = next_service_id s, service_name = nm, price = pr\<rparr> (services s))
      (next_service_id s + 1)"
    by (rule registry_ok_update) simp
  with assms show ?thesis
    by (simp add: state_ok_def add_service_def Let_def)
qed

lemma create_bill_ok:
  assumes ok: "state_ok s"
  shows "state_ok (snd (create_bill pid service_ids now s))"
proof -
  consider (same) "snd (create_bill pid service_ids now s) = s"
    | (upd) svs where "svs \<noteq> []"
        "snd (create_bill pid service_ids now s)
          = s\<lparr>bills := AList.update (next_bill_id s) (Bill_init (next_bill_id s) pid svs now) (bills s),
              next_bill_id := next_bill_id s + 1\<rparr>"
    using create_bill_snd [of pid service_ids now s] by blast
  then show ?thesis
  proof cases
    case same
    show ?thesis using ok by (simp only: same)
  next
    case upd
    let ?b = "Bill_init (next_bill_id s) pid svs now"
    from ok have r: "registry_ok bill_id (bills s) (next_bill_id s)"
      and t: "list_all (\<lambda>kv. total_amount (snd kv) = calculate_total (services_rendered (snd kv))) (bills s)"
      by (simp_all add: state_ok_def)
    have r': "registry_ok bill_id (AList.update (next_bill_id s) ?b (bills s)) (next_bill_id s + 1)"
      by (rule registry_ok_update [OF r]) (simp add: Bill_init_def)
    have app: "AList.update (next_bill_id s) ?b (bills s) = bills s @ [(next_bill_id s, ?b)]"
      by (rule ids_below_update [OF registry_ok_below [OF r]])
    have t': "list_all (\<lambda>kv. total_amount (snd kv) = calculate_total (services_rendered (snd kv)))
        (AList.update (next_bill_id s) ?b (bills s))"
      unfolding app using t by (simp add: Bill_init_def)
    show ?thesis
      unfolding upd(2) using ok r' t' by (simp add: state_ok_def)
  qed
qed

lemma reachable_ok:
  assumes "reachable s"
  shows "state_ok s"
  using assms
proof (induction rule: reachable.induct)
  case (r_init fl s)
  then have l: "load_data fl empty_state = Inr s"
    by (simp add: HospitalBillingSystem_init_def)
  from load_data_cases [OF l] show ?case
    using empty_state_ok load_data_state_ok l by blast
next
  case (r_load s fl s')
  from load_data_cases [OF r_load.hyps(2)] show ?case
    using r_load.IH load_data_state_ok r_load.hyps(2) by blast
next
  case (r_add_patient s nm ct)
  then show ?case by (simp add: add_patient_ok)
next
  case (r_add_service s nm pr)
  then show ?case by (simp add: add_service_ok)
next
  case (r_create_bill s pid service_ids now)
  then show ?case by (simp add: create_bill_ok)
qed

lemma dict_comp_roundtrip:
  assumes "\<forall>kv\<in>set al. key (enc (snd kv)) = Inr (fst kv) \<and> val (enc (snd kv)) = Inr (snd kv)"
    and "distinct (map fst (acc @ al))"
  shows "dict_comp key val (map (\<lambda>kv. enc (snd kv)) al) acc = Inr (acc @ al)"
  using assms
proof (induction al arbitrary: acc)
  case Nil
  then show ?case by simp
next
  case (Cons kv al)
  have k: "key (enc (snd kv)) = Inr (fst kv)" and v: "val (enc (snd kv)) = Inr (snd kv)"
    using Cons.prems(1) by simp_all
  have "fst kv \<notin> fst ` set acc" using Cons.prems(2) by auto
  then have upd: "AList.update (fst kv) (snd kv) acc = acc @ [kv]"
    by (simp add: update_append_new)
  have tl: "\<forall>kv\<in>set al. key (enc (snd kv)) = Inr (fst kv) \<and> val (enc (snd kv)) = Inr (snd kv)"
    using Cons.prems(1) by simp
  have d: "distinct (map fst ((acc @ [kv]) @ al))" using Cons.prems(2) by simp
  from Cons.IH [OF tl d] show ?case by (simp add: k v upd)
qed

lemma Patient_roundtrip: "Patient_from_dict (Patient_to_dict p) = Inr p"
  by (simp add: Patient_from_dict_def Patient_to_dict_def)

lemma Service_roundtrip: "Service_from_dict (Service_to_dict sv) = Inr sv"
  by (simp add: Service_from_dict_def Service_to_dict_def)

lemma Services_roundtrip: "map_err Service_from_dict (map Service_to_dict svs) = Inr svs"
  by (induction svs) (simp_all add: Service_roundtrip)

lemma Bill_roundtrip:
  assumes "total_amount b = calculate_total (services_rendered b)"
  shows "Bill_from_dict (Bill_to_dict b) = Inr b"
  using assms
  by (simp add: Bill_from_dict_def Bill_to_dict_def Services_roundtrip Bill_init_def)

lemma load_save:
  fixes s :: "('p::{zero,plus}) state"
  assumes ok: "state_ok s"
  shows "load_data (Some (Document (save_data s))) s0 =
     Inr (s\<lparr>next_patient_id := Max (insert 1 (fst ` set (patients s))) + 1,
            next_service_id := Max (insert 1 (fst ` set (services s))) + 1,
            next_bill_id := Max (insert 1 (fst ` set (bills s))) + 1\<rparr>)"
proof -
  from ok have rp: "registry_ok patient_id (patients s) (next_patient_id s)"
    and rs: "registry_ok service_id (services s) (next_service_id s)"
    and rb: "registry_ok bill_id (bills s) (next_bill_id s)"
    and tt: "list_all (\<lambda>kv. total_amount (snd kv) = calculate_total (services_rendered (snd kv))) (bills s)"
    by (simp_all add: state_ok_def)
  have p: "dict_comp (\<lambda>p. subscript ''patient_id'' (pd_patient_id p)) Patient_from_dict
       (map (\<lambda>kv. Patient_to_dict (snd kv)) (patients s)) [] = Inr ([] @ patients s)"
  proof (rule dict_comp_roundtrip)
    show "\<forall>kv\<in>set (patients s).
       subscript ''patient_id'' (pd_patient_id (Patient_to_dict (snd kv))) = Inr (fst kv)
       \<and> Patient_from_dict (Patient_to_dict (snd kv)) = Inr (snd kv)"
    proof (intro ballI conjI)
      fix kv assume "kv \<in> set (patients s)"
      with rp show "subscript ''patient_id'' (pd_patient_id (Patient_to_dict (snd kv))) = Inr (fst kv)"
        by (simp add: registry_ok_def list_all_iff subscript_def Patient_to_dict_def)
      show "Patient_from_dict (Patient_to_dict (snd kv)) = Inr (snd kv)"
        by (rule Patient_roundtrip)
    qed
    show "distinct (map fst ([] @ patients s))" using rp by (simp add: registry_ok_def)
  qed
  have sv: "dict_comp (\<lambda>s. subscript ''service_id'' (sd_service_id s)) Service_from_dict
       (map (\<lambda>kv. Service_to_dict (snd kv)) (services s)) [] = Inr ([] @ services s)"
  proof (rule dict_comp_roundtrip)
    show "\<forall>kv\<in>set (services s).
       subscript ''service_id'' (sd_service_id (Service_to_dict (snd kv))) = Inr (fst kv)
       \<and> Service_from_dict (Service_to_dict (snd kv)) = Inr (snd kv)"
    proof (intro ballI conjI)
      fix kv assume "kv \<in> set (services s)"
      with rs show "subscript ''service_id'' (sd_service_id (Service_to_dict (snd kv))) = Inr (fst kv)"
        by (simp add: registry_ok_def list_all_iff subscript_def Service_to_dict_def)
      show "Service_from_dict (Service_to_dict (snd kv)) = Inr (snd kv)"
        by (rule Service_roundtrip)
    qed
    show "distinct (map fst ([] @ services s))" using rs by (simp add: registry_ok_def)
  qed
  have b: "dict_comp (\<lambda>b. subscript ''bill_id'' (bd_bill_id b)) Bill_from_dict
       (map (\<lambda>kv. Bill_to_dict (snd kv)) (bills s)) [] = Inr ([] @ bills s)"
  proof (rule dict_comp_roundtrip)
    show "\<forall>kv\<in>set (bills s).
       subscript ''bill_id'' (bd_bill_id (Bill_to_dict (snd kv))) = Inr (fst kv)
       \<and> Bill_from_dict (Bill_to_dict (snd kv)) = Inr (snd kv)"
    proof (intro ballI conjI)
      fix kv assume m: "kv \<in> set (bills s)"
      with rb show "subscript ''bill_id'' (bd_bill_id (Bill_to_dict (snd kv))) = Inr (fst kv)"
        by (simp add: registry_ok_def list_all_iff subscript_def Bill_to_dict_def)
      from m tt have "total_amount (snd kv) = calculate_total (services_rendered (snd kv))"
        by (simp add: list_all_iff)
      then show "Bill_from_dict (Bill_to_dict (snd kv)) = Inr (snd kv)"
        by (rule Bill_roundtrip)
    qed
    show "distinct (map fst ([] @ bills s))" using rb by (simp add: registry_ok_def)
  qed
  show ?thesis
    using p sv b
    by (simp add: load_data_def save_data_def get_default_def next_id_after_eq)
qed

lemma registry_counter:
  assumes "registry_ok idf reg n"
  shows "Max (insert 1 (fst ` set reg)) + 1 = (if reg = [] then 2 else n)"
  using assms by (auto simp: registry_ok_def)

lemma example_billed_eq:
  "example_billed =
     \<lparr>patients = [(1, \<lparr>patient_id = 1, name = ''Ann'', contact = ''555-0100''\<rparr>)],
      services = [(1, \<lparr>service_id = 1, service_name = ''X-Ray'', price = 100\<rparr>),
                  (2, \<lparr>service_id = 2, service_name = ''Consult'', price = 50\<rparr>)],
      bills = [(1, \<lparr>bill_id = 1, bill_patient_id = 1,
                    services_rendered =
                      [\<lparr>service_id = 1, service_name = ''X-Ray'', price = 100\<rparr>,
                       \<lparr>service_id = 2, service_name = ''Consult'', price = 50\<rparr>,
                       \<lparr>service_id = 2, service_name = ''Consult'', price = 50\<rparr>],
                    bill_date = ''2024-01-01 10:00:00'', total_amount = 200\<rparr>)],
      next_patient_id = 2, next_service_id = 3, next_bill_id = 2\<rparr>"
  by (simp add: example_billed_def example_store_eq create_bill_def get_service_def Let_def
      Bill_init_def calculate_total_def)

lemma empty_state_reachable: "reachable (empty_state :: ('p::{zero,plus}) state)"
  by (rule reachable.r_init [of None]) (simp add: HospitalBillingSystem_init_def load_data_def)

lemma example_store_reachable: "reachable example_store"
  unfolding example_store_def
  by (intro reachable.r_add_service reachable.r_add_patient empty_state_reachable)

lemma example_billed_reachable: "reachable example_billed"
  unfolding example_billed_def
  by (rule reachable.r_create_bill [OF example_store_reachable])

lemma count_from_Suc:
  "map (\<lambda>i. f (c + int i)) [0..<Suc n] = f c # map (\<lambda>i. f (c + 1 + int i)) [0..<n]"
proof -
  have "map (\<lambda>i. f (c + int i)) [0..<Suc n] = f (c + int 0) # map (\<lambda>i. f (c + int (Suc i))) [0..<n]"
    by (rule map_upt_Suc)
  also have "(\<lambda>i. f (c + int (Suc i))) = (\<lambda>i. f (c + 1 + int i))"
    by (intro ext arg_cong [where f = f]) simp
  finally show ?thesis by simp
qed

lemma add_patients_counter:
  "next_patient_id (add_patients args s) = next_patient_id s + int (length args)"
  unfolding add_patients_def
  by (induction args arbitrary: s) (simp_all add: add_patient_def Let_def)

lemma add_services_counter:
  "next_service_id (add_services args s) = next_service_id s + int (length args)"
  unfolding add_services_def
  by (induction args arbitrary: s) (simp_all add: add_service_def Let_def)

lemma add_patients_ids:
  assumes "ids_below (patients s) (next_patient_id s)"
  shows "map (\<lambda>kv. (fst kv, patient_id (snd kv))) (patients (add_patients args s)) =
     map (\<lambda>kv. (fst kv, patient_id (snd kv))) (patients s)
       @ map (\<lambda>i. (next_patient_id s + int i, next_patient_id s + int i)) [0..<length args]"
  using assms
proof (induction args arbitrary: s)
  case Nil
  then show ?case by (simp add: add_patients_def)
next
  case (Cons a args)
  let ?c = "next_patient_id s"
  let ?p = "\<lparr>patient_id = ?c, name = fst a, contact = snd a\<rparr>"
  let ?s1 = "snd (add_patient (fst a) (snd a) s)"
  have upd: "AList.update ?c ?p (patients s) = patients s @ [(?c, ?p)]"
    by (rule ids_below_update [OF Cons.prems])
  have p1: "patients ?s1 = patients s @ [(?c, ?p)]" and n1: "next_patient_id ?s1 = ?c + 1"
    by (simp_all add: add_patient_def Let_def upd)
  have b1: "ids_below (patients ?s1) (next_patient_id ?s1)"
    unfolding p1 n1 by (rule ids_below_append [OF Cons.prems])
  have unf: "add_patients (a # args) s = add_patients args ?s1"
    by (simp add: add_patients_def)
  show ?case
    unfolding unf Cons.IH [OF b1] p1 n1 length_Cons
    by (simp add: count_from_Suc [where f = "\<lambda>k. (k, k)"] del: upt_Suc)
qed

lemma add_services_ids:
  assumes "ids_below (services s) (next_service_id s)"
  shows "map (\<lambda>kv. (fst kv, service_id (snd kv))) (services (add_services args s)) =
     map (\<lambda>kv. (fst kv, service_id (snd kv))) (services s)
       @ map (\<lambda>i. (next_service_id s + int i, next_service_id s + int i)) [0..<length args]"
  using assms
proof (induction args arbitrary: s)
  case Nil
  then show ?case by (simp add: add_services_def)
next
  case (Cons a args)
  let ?c = "next_service_id s"
  let ?p = "\<lparr>service_id = ?c, service_name = fst a, price = snd a\<rparr>"
  let ?s1 = "snd (add_service (fst a) (snd a) s)"
  have upd: "AList.update ?c ?p (services s) = services s @ [(?c, ?p)]"
    by (rule ids_below_update [OF Cons.prems])
  have p1: "services ?s1 = services s @ [(?c, ?p)]" and n1: "next_service_id ?s1 = ?c + 1"
    by (simp_all add: add_service_def Let_def upd)
  have b1: "ids_below (services ?s1) (next_service_id ?s1)"
    unfolding p1 n1 by (rule ids_below_append [OF Cons.prems])
  have unf: "add_services (a # args) s = add_services args ?s1"
    by (simp add: add_services_def)
  show ?case
    unfolding unf Cons.IH [OF b1] p1 n1 length_Cons
    by (simp add: count_from_Suc [where f = "\<lambda>k. (k, k)"] del: upt_Suc)
qed

lemma create_bill_result:
  "create_bill pid service_ids now s = (None, s)
   \<or> (\<exists>svs. svs \<noteq> [] \<and> create_bill pid service_ids now s
          = (Some (Bill_init (next_bill_id s) pid svs now),
             s\<lparr>bills := AList.update (next_bill_id s) (Bill_init (next_bill_id s) pid svs now) (bills s),
               next_bill_id := next_bill_id s + 1\<rparr>))"
proof (cases "map_of (patients s) pid = None \<or> collect_services s service_ids [] = []")
  case True
  then have "create_bill pid service_ids now s = (None, s)"
    by (auto simp: create_bill_def Let_def)
  then show ?thesis ..
next
  case False
  then have "collect_services s service_ids [] \<noteq> [] \<and> create_bill pid service_ids now s
          = (Some (Bill_init (next_bill_id s) pid (collect_services s service_ids []) now),
             s\<lparr>bills := AList.update (next_bill_id s)
                 (Bill_init (next_bill_id s) pid (collect_services s service_ids []) now) (bills s),
               next_bill_id := next_bill_id s + 1\<rparr>)"
    by (auto simp: create_bill_def Let_def)
  then show ?thesis by blast
qed

lemma create_bills_ids:
  fixes s :: "('p::{zero,plus}) state"
  shows "next_bill_id (snd (create_bills calls s))
           = next_bill_id s + int (length (created (fst (create_bills calls s))))
     \<and> map bill_id (created (fst (create_bills calls s)))
           = map (\<lambda>i. next_bill_id s + int i) [0..<length (created (fst (create_bills calls s)))]
     \<and> (ids_below (bills s) (next_bill_id s) \<longrightarrow>
          map (\<lambda>kv. (fst kv, bill_id (snd kv))) (bills (snd (create_bills calls s))) =
            map (\<lambda>kv. (fst kv, bill_id (snd kv))) (bills s)
              @ map (\<lambda>i. (next_bill_id s + int i, next_bill_id s + int i))
                  [0..<length (created (fst (create_bills calls s)))])"
proof (induction calls arbitrary: s)
  case Nil
  show ?case by (simp add: created_def)
next
  case (Cons c calls)
  let ?r = "create_bill (fst c) (fst (snd c)) (snd (snd c)) s"
  have unf: "create_bills (c # calls) s = (fst ?r # fst (create_bills calls (snd ?r)), snd (create_bills calls (snd ?r)))"
    by (simp add: Let_def)
  from create_bill_result [of "fst c" "fst (snd c)" "snd (snd c)" s] show ?case
  proof (elim disjE exE conjE)
    assume n: "?r = (None, s)"
    show ?thesis unfolding unf using Cons.IH [of s] by (simp add: n created_def)
  next
    fix svs :: "'p service list"
    let ?k = "next_bill_id s"
    let ?b = "Bill_init ?k (fst c) svs (snd (snd c))"
    let ?s1 = "s\<lparr>bills := AList.update ?k ?b (bills s), next_bill_id := ?k + 1\<rparr>"
    assume ne: "svs \<noteq> []" and r: "?r = (Some ?b, ?s1)"
    let ?n = "length (created (fst (create_bills calls ?s1)))"
    have len: "length (created (fst (create_bills (c # calls) s))) = Suc ?n"
      unfolding unf by (simp add: r created_def)
    have cr: "created (fst (create_bills (c # calls) s)) = ?b # created (fst (create_bills calls ?s1))"
      unfolding unf by (simp add: r created_def)
    have st: "snd (create_bills (c # calls) s) = snd (create_bills calls ?s1)"
      unfolding unf by (simp add: r)
    note ih = Cons.IH [of ?s1]
    have c1: "next_bill_id (snd (create_bills (c # calls) s))
        = next_bill_id s + int (length (created (fst (create_bills (c # calls) s))))"
      unfolding st len using ih by simp
    have c2: "map bill_id (created (fst (create_bills (c # calls) s)))
        = map (\<lambda>i. next_bill_id s + int i) [0..<length (created (fst (create_bills (c # calls) s)))]"
      unfolding len cr using ih
      by (simp add: count_from_Suc [where f = "\<lambda>k. k"] Bill_init_def del: upt_Suc)
    have c3: "map (\<lambda>kv. (fst kv, bill_id (snd kv))) (bills (snd (create_bills (c # calls) s))) =
            map (\<lambda>kv. (fst kv, bill_id (snd kv))) (bills s)
              @ map (\<lambda>i. (next_bill_id s + int i, next_bill_id s + int i))
                  [0..<length (created (fst (create_bills (c # calls) s)))]"
      if below: "ids_below (bills s) (next_bill_id s)"
    proof -
      have upd: "AList.update ?k ?b (bills s) = bills s @ [(?k, ?b)]"
        by (rule ids_below_update [OF below])
      have "ids_below (bills s @ [(?k, ?b)]) (?k + 1)"
        by (rule ids_below_append [OF below])
      then have "ids_below (bills ?s1) (next_bill_id ?s1)" by (simp add: upd)
      with ih have "map (\<lambda>kv. (fst kv, bill_id (snd kv))) (bills (snd (create_bills calls ?s1))) =
            map (\<lambda>kv. (fst kv, bill_id (snd kv))) (bills ?s1)
              @ map (\<lambda>i. (next_bill_id ?s1 + int i, next_bill_id ?s1 + int i)) [0..<?n]"
        by blast
      moreover have "bills ?s1 = bills s @ [(?k, ?b)]" by (simp add: upd)
      moreover have "next_bill_id ?s1 = ?k + 1" by simp
      moreover have "bill_id ?b = ?k" by (simp add: Bill_init_def)
      ultimately have "map (\<lambda>kv. (fst kv, bill_id (snd kv))) (bills (snd (create_bills calls ?s1))) =
            (map (\<lambda>kv. (fst kv, bill_id (snd kv))) (bills s) @ [(?k, ?k)])
              @ map (\<lambda>i. (?k + 1 + int i, ?k + 1 + int i)) [0..<?n]"
        by (simp only: map_append list.map fst_conv snd_conv)
      then show ?thesis
        unfolding st len
        by (simp add: count_from_Suc [where f = "\<lambda>k. (k, k)"] del: upt_Suc)
    qed
    from c1 c2 c3 show ?thesis by blast
  qed
qed

lemma create_bill_step:
  fixes s :: "('p::{zero,plus}) state"
  shows "(fst (create_bill pid service_ids now s) = Some b \<longrightarrow>
            bill_id b = next_bill_id s
            \<and> next_bill_id (snd (create_bill pid service_ids now s)) = next_bill_id s + 1)
     \<and> (fst (create_bill pid service_ids now s) = None \<longrightarrow>
            next_bill_id (snd (create_bill pid service_ids now s)) = next_bill_id s)"
  using create_bill_result [of pid service_ids now s]
  by (auto simp: Bill_init_def)

lemma created_map_length:
  "length (created (map (map_option f) rs)) = length (created rs)"
  unfolding created_def by (induction rs) (auto split: option.splits)

lemma example_calls_run:
  "map (map_option bill_id) (fst (create_bills example_calls example_store)) = [Some 1, None, None, Some 2]"
  by (simp add: example_calls_def example_store_eq create_bill_def get_service_def Let_def
      Bill_init_def)

lemma h_collect_services_acc:
  "h_collect_services s ids acc = acc @ List.map_filter (h_get_service s) ids"
  by (induction ids arbitrary: acc) (auto split: option.splits)

lemma map_of_map_values:
  "map_of (map (\<lambda>kv. (fst kv, f (snd kv))) al) k = map_option f (map_of al k)"
  by (induction al) auto

lemma update_map_values:
  "AList.update k (f v) (map (\<lambda>kv. (fst kv, f (snd kv))) al)
     = map (\<lambda>kv. (fst kv, f (snd kv))) (AList.update k v al)"
  by (induction al) auto

lemma map_filter_map_option:
  "List.map_filter (\<lambda>x. map_option f (g x)) xs = map f (List.map_filter g xs)"
  by (induction xs) (auto split: option.splits)

lemma get_service_abs:
  "get_service (abs_state s) i = map_option (heap s) (h_get_service s i)"
  by (simp add: get_service_def h_get_service_def abs_state_def map_of_map_values)

lemma collect_services_abs:
  "collect_services (abs_state s) ids [] = map (heap s) (h_collect_services s ids [])"
proof -
  have "get_service (abs_state s) = (\<lambda>i. map_option (heap s) (h_get_service s i))"
    by (intro ext) (rule get_service_abs)
  then show ?thesis
    by (simp add: collect_services_acc h_collect_services_acc map_filter_map_option)
qed

lemma abs_state_fields:
  "patients (abs_state s) = h_patients s"
  "next_bill_id (abs_state s) = h_next_bill_id s"
  by (simp_all add: abs_state_def)

lemma calculate_total_abs:
  "calculate_total (map (heap s) refs) = h_calculate_total s refs"
  by (simp add: calculate_total_def h_calculate_total_def comp_def)

lemma create_bill_refines:
  fixes s :: "('p::{zero,plus}) hstate"
  shows "create_bill pid service_ids now (abs_state s) =
     (map_option (abs_bill s) (fst (h_create_bill pid service_ids now s)),
      abs_state (snd (h_create_bill pid service_ids now s)))"
proof (cases "map_of (h_patients s) pid = None \<or> h_collect_services s service_ids [] = []")
  case True
  then show ?thesis
    by (auto simp: create_bill_def h_create_bill_def Let_def collect_services_abs abs_state_fields)
next
  case False
  let ?refs = "h_collect_services s service_ids []"
  let ?b = "\<lparr>hb_bill_id = h_next_bill_id s, hb_patient_id = pid, hb_services_rendered = ?refs,
             hb_bill_date = now, hb_total_amount = h_calculate_total s ?refs\<rparr>"
  let ?s' = "s\<lparr>h_bills := AList.update (h_next_bill_id s) ?b (h_bills s),
              h_next_bill_id := h_next_bill_id s + 1\<rparr>"
  from False have h: "h_create_bill pid service_ids now s = (Some ?b, ?s')"
    by (auto simp: h_create_bill_def Let_def)
  have ab: "abs_bill ?s' = abs_bill s"
    by (intro ext) (simp add: abs_bill_def line_items_def)
  have bill: "Bill_init (h_next_bill_id s) pid (map (heap s) ?refs) now = abs_bill s ?b"
    by (simp add: Bill_init_def abs_bill_def line_items_def calculate_total_abs)
  from False have v: "create_bill pid service_ids now (abs_state s) =
      (Some (abs_bill s ?b),
       (abs_state s)\<lparr>bills := AList.update (h_next_bill_id s) (abs_bill s ?b) (bills (abs_state s)),
          next_bill_id := h_next_bill_id s + 1\<rparr>)"
    by (auto simp: create_bill_def Let_def collect_services_abs bill abs_state_fields)
  have "(abs_state s)\<lparr>bills := AList.update (h_next_bill_id s) (abs_bill s ?b) (bills (abs_state s)),
          next_bill_id := h_next_bill_id s + 1\<rparr> = abs_state ?s'"
    by (simp add: abs_state_def ab update_map_values)
  with v show ?thesis by (simp add: h)
qed

lemma h_create_bill_SomeD:
  assumes "h_create_bill pid service_ids now s = (Some b, s')"
  shows "b = \<lparr>hb_bill_id = h_next_bill_id s, hb_patient_id = pid,
              hb_services_rendered = List.map_filter (h_get_service s) service_ids,
              hb_bill_date = now,
              hb_total_amount = h_calculate_total s (List.map_filter (h_get_service s) service_ids)\<rparr>
     \<and> s' = s\<lparr>h_bills := AList.update (h_next_bill_id s) b (h_bills s),
              h_next_bill_id := h_next_bill_id s + 1\<rparr>"
  using assms
  by (auto simp: h_create_bill_def Let_def h_collect_services_acc split: if_splits)

lemma map_filter_range:
  "set (List.map_filter (map_of al) ks) \<subseteq> snd ` set al"
proof (induction ks)
  case Nil
  then show ?case by simp
next
  case (Cons k ks)
  show ?case
  proof (cases "map_of al k")
    case None
    with Cons show ?thesis by simp
  next
    case (Some v)
    then have "(k, v) \<in> set al" by (rule map_of_SomeD)
    then have "v \<in> snd ` set al" by force
    with Cons Some show ?thesis by simp
  qed
qed

lemma h_example_store_eq:
  "h_services h_example_store = [(1, 0), (2, 1)]"
  "h_patients h_example_store = [(1, \<lparr>patient_id = 1, name = ''Ann'', contact = ''555-0100''\<rparr>)]"
  "h_bills h_example_store = []"
  "h_next_bill_id h_example_store = 1"
  "next_ref h_example_store = 2"
  "heap h_example_store 0 = \<lparr>service_id = 1, service_name = ''X-Ray'', price = 100\<rparr>"
  "heap h_example_store (Suc 0) = \<lparr>service_id = 2, service_name = ''Consult'', price = 50\<rparr>"
  by (simp_all add: h_example_store_def h_add_service_def h_add_patient_def h_empty_state_def Let_def)

lemma h_example_create:
  "h_create_bill 1 [1, 2, 2] ''2024-01-01 10:00:00'' h_example_store
     = (Some h_example_bill, h_example_billed)"
proof -
  have "fst (h_create_bill 1 [1, 2, 2] ''2024-01-01 10:00:00'' h_example_store) = Some h_example_bill"
    by (simp add: h_create_bill_def Let_def h_get_service_def h_calculate_total_def
        h_example_bill_def h_example_store_eq)
  then show ?thesis
    unfolding h_example_billed_def by (simp add: prod_eq_iff)
qed

lemma h_example_billed_eq:
  "h_services h_example_billed = [(1, 0), (2, 1)]"
  "h_bills h_example_billed = [(1, h_example_bill)]"
  "heap h_example_billed 0 = \<lparr>service_id = 1, service_name = ''X-Ray'', price = 100\<rparr>"
  "heap h_example_billed (Suc 0) = \<lparr>service_id = 2, service_name = ''Consult'', price = 50\<rparr>"
proof -
  from h_create_bill_SomeD [OF h_example_create]
  have e: "h_example_billed = h_example_store\<lparr>
      h_bills := AList.update (h_next_bill_id h_example_store) h_example_bill (h_bills h_example_store),
      h_next_bill_id := h_next_bill_id h_example_store + 1\<rparr>"
    by blast
  show "h_services h_example_billed = [(1, 0), (2, 1)]"
    "h_bills h_example_billed = [(1, h_example_bill)]"
    "heap h_example_billed 0 = \<lparr>service_id = 1, service_name = ''X-Ray'', price = 100\<rparr>"
    "heap h_example_billed (Suc 0) = \<lparr>service_id = 2, service_name = ''Consult'', price = 50\<rparr>"
    by (subst e, simp add: h_example_store_eq)+
qed

lemma h_example_assign:
  "assign_service 1 ''X-Ray'' 500 h_example_billed = Inr h_example_repriced"
  by (simp add: assign_service_def h_example_repriced_def h_example_billed_eq)

lemma dict_comp_untouched:
  assumes "dict_comp key val xs acc = Inr d" and "\<forall>y\<in>set xs. key y \<noteq> Inr k"
  shows "map_of d k = map_of acc k"
  using assms
proof (induction xs arbitrary: acc)
  case Nil
  then show ?case by simp
next
  case (Cons x xs)
  from Cons.prems(1) obtain k' v' where k': "key x = Inr k'" and v': "val x = Inr v'"
    and rest: "dict_comp key val xs (AList.update k' v' acc) = Inr d"
    by (auto split: sum.splits)
  from Cons.prems(2) k' have ne: "k' \<noteq> k" by auto
  have tl: "\<forall>y\<in>set xs. key y \<noteq> Inr k" using Cons.prems(2) by simp
  have "map_of d k = map_of (AList.update k' v' acc) k"
    by (rule Cons.IH [OF rest tl])
  with ne show ?case by (simp add: AList.update_conv')
qed

lemma dict_comp_last:
  assumes "dict_comp key val (pre @ x # post) acc = Inr d"
    and "key x = Inr k" and "\<forall>y\<in>set post. key y \<noteq> Inr k"
  shows "\<exists>v. val x = Inr v \<and> map_of d k = Some v"
  using assms(1)
proof (induction pre arbitrary: acc)
  case Nil
  then obtain v where v: "val x = Inr v"
    and rest: "dict_comp key val post (AList.update k v acc) = Inr d"
    using assms(2) by (auto split: sum.splits)
  have "map_of d k = map_of (AList.update k v acc) k"
    by (rule dict_comp_untouched [OF rest assms(3)])
  then have "map_of d k = Some v" by (simp add: AList.update_conv')
  with v show ?case by blast
next
  case (Cons p pre)
  from Cons.prems obtain k' v' where
    rest: "dict_comp key val (pre @ x # post) (AList.update k' v' acc) = Inr d"
    by (auto split: sum.splits)
  show ?case by (rule Cons.IH [OF rest])
qed

lemma dict_comp_key_ok:
  assumes "dict_comp key val xs acc = Inr d" and "x \<in> set xs"
  shows "\<exists>k. key x = Inr k"
  using assms
proof (induction xs arbitrary: acc)
  case Nil
  then show ?case by simp
next
  case (Cons y ys)
  from Cons.prems(1) obtain k' v' where k': "key y = Inr k'"
    and rest: "dict_comp key val ys (AList.update k' v' acc) = Inr d"
    by (auto split: sum.splits)
  show ?case
  proof (cases "x = y")
    case True
    with k' show ?thesis by blast
  next
    case False
    with Cons.prems(2) have "x \<in> set ys" by simp
    then show ?thesis by (rule Cons.IH [OF rest])
  qed
qed

lemma Bill_from_dict_empty:
  assumes "Bill_from_dict data = Inr b" and "bd_services_rendered data = Some []"
  shows "services_rendered b = []"
  using assms
  by (auto simp: Bill_from_dict_def Bill_init_def split: option.splits sum.splits)

lemma load_data_last_bill:
  fixes s :: "('p::{zero,plus}) state"
  assumes l: "load_data (Some (Document data)) s = Inr s'"
    and sp: "get_default (doc_bills data) = pre @ bd # post"
    and last: "\<forall>y\<in>set post. bd_bill_id y \<noteq> bd_bill_id bd"
  shows "\<exists>k b. bd_bill_id bd = Some k \<and> get_bill s' k = Some b \<and> Bill_from_dict bd = Inr b"
proof -
  from l obtain ps ss bs where
    bs: "dict_comp (\<lambda>b. subscript ''bill_id'' (bd_bill_id b)) Bill_from_dict
         (get_default (doc_bills data)) [] = Inr bs"
    and s': "s' = s\<lparr>patients := ps, services := ss, bills := bs,
            next_patient_id := Max (insert 1 (fst ` set ps)) + 1,
            next_service_id := Max (insert 1 (fst ` set ss)) + 1,
            next_bill_id := Max (insert 1 (fst ` set bs)) + 1\<rparr>"
    by (rule load_data_DocumentE)
  have mem: "bd \<in> set (get_default (doc_bills data))" by (simp add: sp)
  from dict_comp_key_ok [OF bs mem] obtain k where k: "bd_bill_id bd = Some k"
    by (auto simp: subscript_def split: option.splits)
  have kx: "subscript ''bill_id'' (bd_bill_id bd) = Inr k" by (simp add: subscript_def k)
  have lst: "\<forall>y\<in>set post. subscript ''bill_id'' (bd_bill_id y) \<noteq> Inr k"
    using last k by (auto simp: subscript_def split: option.splits)
  from dict_comp_last [OF bs [unfolded sp] kx lst]
  obtain b where "Bill_from_dict bd = Inr b" "map_of bs k = Some b" by blast
  then show ?thesis using k by (auto simp: get_bill_def s')
qed

section \<open>Creating a bill\<close>

text \<open>
  Claim C2, as amended. When the patient exists and at least one of the given ids
  resolves, \<open>create_bill\<close> returns a bill. Its line items are the services that the ids
  resolve to, in the order of the ids, one per occurrence of an id (nothing is
  deduplicated) and with every unresolved id left out. Its total is the sum of the
  prices of those line items, added from left to right starting at 0.
  In the example of the specification (services 1 and 2 priced 100 and 50, ids
  \<open>[1, 2, 2]\<close>) the bill has three line items and its total is 200.
\<close>

theorem create_bill_line_items:
  fixes s :: "('p::{zero,plus}) state"
  assumes "pid \<in> fst ` set (patients s)"
    and "\<exists>i\<in>set service_ids. get_service s i \<noteq> None"
  shows "\<exists>b. fst (create_bill pid service_ids now s) = Some b
           \<and> services_rendered b = List.map_filter (get_service s) service_ids
           \<and> services_rendered b =
               map (\<lambda>i. the (get_service s i)) (filter (\<lambda>i. get_service s i \<noteq> None) service_ids)
           \<and> total_amount b = foldl (+) 0 (map price (services_rendered b))"
proof -
  from assms(1) have p: "map_of (patients s) pid \<noteq> None"
    by (simp add: map_of_eq_None_iff)
  from assms(2) have ne: "List.map_filter (get_service s) service_ids \<noteq> []"
    by (simp add: map_filter_eq_Nil)
  show ?thesis using p ne
    by (simp add: create_bill_def collect_services_acc Let_def Bill_init_def calculate_total_def)
       (simp add: List.map_filter_def comp_def)
qed

theorem create_bill_line_items_witness:
  "1 \<in> fst ` set (patients example_store)
   \<and> (\<exists>i\<in>set [1, 2, 2]. get_service example_store i \<noteq> None)
   \<and> (\<exists>b. fst (create_bill 1 [1, 2, 2] ''2024-01-01 10:00:00'' example_store) = Some b
         \<and> length (services_rendered b) = 3 \<and> total_amount b = 200)"
proof -
  have h1: "1 \<in> fst ` set (patients example_store)"
    by (simp add: example_store_eq)
  have h2: "\<exists>i\<in>set [1, 2, 2]. get_service example_store i \<noteq> None"
    by (simp add: example_store_eq get_service_def)
  from create_bill_line_items [OF h1 h2, of "''2024-01-01 10:00:00''"]
  obtain b where b: "fst (create_bill 1 [1, 2, 2] ''2024-01-01 10:00:00'' example_store) = Some b"
    and sr: "services_rendered b = List.map_filter (get_service example_store) [1, 2, 2]"
    and tot: "total_amount b = foldl (+) 0 (map price (services_rendered b))"
    by blast
  from sr have sr': "services_rendered b =
      [\<lparr>service_id = 1, service_name = ''X-Ray'', price = 100\<rparr>,
       \<lparr>service_id = 2, service_name = ''Consult'', price = 50\<rparr>,
       \<lparr>service_id = 2, service_name = ''Consult'', price = 50\<rparr>]"
    by (simp add: example_store_eq get_service_def)
  have "length (services_rendered b) = 3" by (simp add: sr')
  moreover have "total_amount b = 200" by (simp add: tot sr')
  ultimately show ?thesis using h1 h2 b by blast
qed

text \<open>
  The example as the specification words it (total 250) does not hold: 100 + 50 + 50
  is 200.
\<close>

theorem create_bill_example_counterexample:
  "map_option total_amount
     (fst (create_bill 1 [1, 2, 2] ''2024-01-01 10:00:00'' example_store)) = Some 200
   \<and> map_option total_amount
     (fst (create_bill 1 [1, 2, 2] ''2024-01-01 10:00:00'' example_store)) \<noteq> Some 250"
  by (simp add: example_store_eq create_bill_def get_service_def Let_def Bill_init_def
      calculate_total_def)

text \<open>
  Claim C4. When the patient id is not a key of the patient registry, \<open>create_bill\<close>
  returns \<open>None\<close> and the whole store (the three registries and the three counters) is
  what it was before the call.
\<close>

theorem create_bill_unknown_patient:
  assumes "pid \<notin> fst ` set (patients s)"
  shows "create_bill pid service_ids now s = (None, s)"
  using assms by (simp add: create_bill_def map_of_eq_None_iff)

theorem create_bill_unknown_patient_witness:
  "7 \<notin> fst ` set (patients example_store)
   \<and> create_bill 7 [1, 2] ''2024-01-01 10:00:00'' example_store = (None, example_store)"
proof -
  have h: "7 \<notin> fst ` set (patients example_store)"
    by (simp add: example_store_eq)
  from create_bill_unknown_patient [OF h] h show ?thesis by simp
qed

text \<open>
  Claim C5, as amended. When the patient exists and none of the given ids resolves,
  \<open>create_bill\<close> returns \<open>None\<close>, allocates no bill id and changes nothing. Hence a
  bill that \<open>create_bill\<close> returns has at least one line item, and when no bill of the
  registry is without line items before a call of \<open>create_bill\<close>, none is after it.
  Loading checks nothing. If no bill of the file has an empty array of line items, a
  load that succeeds yields a registry in which no bill is without line items. A file
  bill with an empty array that is the last entry of the file with its bill id is
  stored under that id as a bill without line items.
\<close>

theorem create_bill_no_services:
  fixes s :: "('p::{zero,plus}) state"
  shows "(pid \<in> fst ` set (patients s) \<and> (\<forall>i\<in>set service_ids. get_service s i = None)
            \<longrightarrow> create_bill pid service_ids now s = (None, s))
     \<and> (fst (create_bill pid service_ids now s) = Some b \<longrightarrow> services_rendered b \<noteq> [])
     \<and> ((\<forall>b\<in>snd ` set (bills s). services_rendered b \<noteq> [])
            \<longrightarrow> (\<forall>b\<in>snd ` set (bills (snd (create_bill pid service_ids now s))).
                   services_rendered b \<noteq> []))
     \<and> (load_data (Some (Document data)) s = Inr s'
          \<and> (\<forall>bd\<in>set (get_default (doc_bills data)). bd_services_rendered bd \<noteq> Some [])
            \<longrightarrow> (\<forall>b\<in>snd ` set (bills s'). services_rendered b \<noteq> []))
     \<and> (load_data (Some (Document data)) s = Inr s'
          \<and> get_default (doc_bills data) = pre @ bd # post
          \<and> bd_services_rendered bd = Some []
          \<and> (\<forall>y\<in>set post. bd_bill_id y \<noteq> bd_bill_id bd)
            \<longrightarrow> (\<exists>k b'. bd_bill_id bd = Some k \<and> get_bill s' k = Some b'
                   \<and> services_rendered b' = []))"
proof (intro conjI impI)
  assume "pid \<in> fst ` set (patients s) \<and> (\<forall>i\<in>set service_ids. get_service s i = None)"
  then show "create_bill pid service_ids now s = (None, s)"
    by (simp add: create_bill_none_resolve)
next
  assume "fst (create_bill pid service_ids now s) = Some b"
  from create_bill_Some [OF this] show "services_rendered b \<noteq> []"
    by (auto simp: Bill_init_def)
next
  assume "\<forall>b\<in>snd ` set (bills s). services_rendered b \<noteq> []"
  moreover have "\<forall>bid svs d. svs \<noteq> [] \<longrightarrow>
      services_rendered (Bill_init bid pid svs d :: 'p bill) \<noteq> []"
    by (simp add: Bill_init_def)
  ultimately show "\<forall>b\<in>snd ` set (bills (snd (create_bill pid service_ids now s))).
      services_rendered b \<noteq> []"
    by (rule create_bill_bills)
next
  assume a: "load_data (Some (Document data)) s = Inr s'
     \<and> (\<forall>bd\<in>set (get_default (doc_bills data)). bd_services_rendered bd \<noteq> Some [])"
  then obtain ps ss bs where
    bs: "dict_comp (\<lambda>b. subscript ''bill_id'' (bd_bill_id b)) Bill_from_dict
         (get_default (doc_bills data)) [] = Inr bs"
    and s': "s' = s\<lparr>patients := ps, services := ss, bills := bs,
            next_patient_id := Max (insert 1 (fst ` set ps)) + 1,
            next_service_id := Max (insert 1 (fst ` set ss)) + 1,
            next_bill_id := Max (insert 1 (fst ` set bs)) + 1\<rparr>"
    by (blast elim: load_data_DocumentE)
  have e: "\<forall>v\<in>snd ` set ([] :: (int \<times> 'p bill) list). services_rendered v \<noteq> []" by simp
  have f: "\<forall>x\<in>set (get_default (doc_bills data)). \<forall>v. Bill_from_dict x = Inr v
       \<longrightarrow> services_rendered v \<noteq> []"
    using a Bill_from_dict_nonempty by blast
  have "\<forall>b\<in>snd ` set bs. services_rendered b \<noteq> []"
    by (rule dict_comp_values [OF bs e f])
  then show "\<forall>b\<in>snd ` set (bills s'). services_rendered b \<noteq> []"
    by (simp add: s')
next
  assume a: "load_data (Some (Document data)) s = Inr s'
          \<and> get_default (doc_bills data) = pre @ bd # post
          \<and> bd_services_rendered bd = Some []
          \<and> (\<forall>y\<in>set post. bd_bill_id y \<noteq> bd_bill_id bd)"
  then have l: "load_data (Some (Document data)) s = Inr s'"
    and sp: "get_default (doc_bills data) = pre @ bd # post"
    and em: "bd_services_rendered bd = Some []"
    and last: "\<forall>y\<in>set post. bd_bill_id y \<noteq> bd_bill_id bd"
    by blast+
  from load_data_last_bill [OF l sp last]
  obtain k b' where "bd_bill_id bd = Some k" "get_bill s' k = Some b'" "Bill_from_dict bd = Inr b'"
    by blast
  moreover from this(3) em have "services_rendered b' = []" by (rule Bill_from_dict_empty)
  ultimately show "\<exists>k b'. bd_bill_id bd = Some k \<and> get_bill s' k = Some b'
                   \<and> services_rendered b' = []"
    by blast
qed

theorem create_bill_no_services_witness:
  "1 \<in> fst ` set (patients example_store)
   \<and> get_service example_store 8 = None \<and> get_service example_store 9 = None
   \<and> create_bill 1 [8, 9] ''2024-01-01 10:00:00'' example_store = (None, example_store)
   \<and> next_bill_id (snd (create_bill 1 [8, 9] ''2024-01-01 10:00:00'' example_store)) = 1
   \<and> bills (snd (create_bill 1 [8, 9] ''2024-01-01 10:00:00'' example_store)) = []
   \<and> map_option (\<lambda>b. services_rendered b = [])
        (fst (create_bill 1 [1, 2, 2] ''2024-01-01 10:00:00'' example_store)) = Some False
   \<and> list_all (\<lambda>kv. services_rendered (snd kv) \<noteq> []) (bills example_billed)
   \<and> list_all (\<lambda>kv. services_rendered (snd kv) \<noteq> [])
        (bills (snd (create_bill 1 [2] ''2024-01-02 09:00:00'' example_billed)))
   \<and> length (bills (snd (create_bill 1 [2] ''2024-01-02 09:00:00'' example_billed))) = 2
   \<and> load_data (Some (Document tampered_doc)) empty_state = Inr tampered_loaded
   \<and> list_all (\<lambda>bd. bd_services_rendered bd \<noteq> Some []) (get_default (doc_bills tampered_doc))
   \<and> list_all (\<lambda>kv. services_rendered (snd kv) \<noteq> []) (bills tampered_loaded)
   \<and> bills tampered_loaded \<noteq> []
   \<and> load_data (Some (Document empty_bill_doc)) empty_state = Inr empty_bill_loaded
   \<and> map_option services_rendered (get_bill empty_bill_loaded 1) = Some []"
proof -
  have h1: "1 \<in> fst ` set (patients example_store)"
    by (simp add: example_store_eq)
  have h2: "\<forall>i\<in>set [8, 9]. get_service example_store i = None"
    by (simp add: example_store_eq get_service_def)
  from create_bill_no_services [where s = example_store and pid = 1 and service_ids = "[8, 9]"
      and now = "''2024-01-01 10:00:00''"] h1 h2
  have r: "create_bill 1 [8, 9] ''2024-01-01 10:00:00'' example_store = (None, example_store)"
    by blast
  have c1: "next_bill_id (snd (create_bill 1 [8, 9] ''2024-01-01 10:00:00'' example_store)) = 1"
    "bills (snd (create_bill 1 [8, 9] ''2024-01-01 10:00:00'' example_store)) = []"
    unfolding r by (simp_all add: example_store_eq)
  have c0: "get_service example_store 8 = None \<and> get_service example_store 9 = None"
    using h2 by simp
  obtain b0 where b0: "fst (create_bill 1 [1, 2, 2] ''2024-01-01 10:00:00'' example_store) = Some b0"
    by (simp add: example_store_eq create_bill_def get_service_def Let_def)
  from create_bill_no_services [where s = example_store and pid = 1 and service_ids = "[1, 2, 2]"
      and now = "''2024-01-01 10:00:00''" and b = b0] b0
  have "services_rendered b0 \<noteq> []" by blast
  with b0 have c2: "map_option (\<lambda>b. services_rendered b = [])
        (fst (create_bill 1 [1, 2, 2] ''2024-01-01 10:00:00'' example_store)) = Some False"
    by simp
  have pre3: "\<forall>b\<in>snd ` set (bills example_billed). services_rendered b \<noteq> []"
    by (simp add: example_billed_eq)
  from create_bill_no_services [where s = example_billed and pid = 1 and service_ids = "[2]"
      and now = "''2024-01-02 09:00:00''"] pre3
  have "\<forall>b\<in>snd ` set (bills (snd (create_bill 1 [2] ''2024-01-02 09:00:00'' example_billed))).
      services_rendered b \<noteq> []"
    by blast
  then have c3: "list_all (\<lambda>kv. services_rendered (snd kv) \<noteq> [])
        (bills (snd (create_bill 1 [2] ''2024-01-02 09:00:00'' example_billed)))"
    by (simp add: list_all_iff)
  from pre3 have c3a: "list_all (\<lambda>kv. services_rendered (snd kv) \<noteq> []) (bills example_billed)"
    by (simp add: list_all_iff)
  have c3b: "length (bills (snd (create_bill 1 [2] ''2024-01-02 09:00:00'' example_billed))) = 2"
    by (simp add: example_billed_eq create_bill_def get_service_def Let_def)
  have l4: "load_data (Some (Document tampered_doc)) empty_state = Inr tampered_loaded"
    using tampered_load by (simp add: HospitalBillingSystem_init_def)
  have pre4: "\<forall>bd\<in>set (get_default (doc_bills tampered_doc)). bd_services_rendered bd \<noteq> Some []"
    by (simp add: tampered_doc_def tampered_bill_def get_default_def)
  from create_bill_no_services [where data = tampered_doc and s = empty_state
      and s' = tampered_loaded] l4 pre4
  have "\<forall>b\<in>snd ` set (bills tampered_loaded). services_rendered b \<noteq> []"
    by blast
  then have c4: "list_all (\<lambda>kv. services_rendered (snd kv) \<noteq> []) (bills tampered_loaded)"
    by (simp add: list_all_iff)
  from pre4 have c4a: "list_all (\<lambda>bd. bd_services_rendered bd \<noteq> Some [])
      (get_default (doc_bills tampered_doc))"
    by (simp add: list_all_iff)
  have c4b: "bills tampered_loaded \<noteq> []" by (simp add: tampered_loaded_def)
  have l5: "load_data (Some (Document empty_bill_doc)) empty_state = Inr empty_bill_loaded"
    using empty_bill_load by (simp add: HospitalBillingSystem_init_def)
  let ?bd = "\<lparr>bd_bill_id = Some 1, bd_patient_id = Some 1, bd_services_rendered = Some [],
          bd_bill_date = Some ''2024-01-01 10:00:00'', bd_total_amount = Some (0::real)\<rparr>"
  have sp5: "get_default (doc_bills empty_bill_doc) = [] @ ?bd # []"
    by (simp add: empty_bill_doc_def get_default_def)
  have e5: "bd_services_rendered ?bd = Some []" by simp
  have last5: "\<forall>y\<in>set []. bd_bill_id y \<noteq> bd_bill_id ?bd" by simp
  note t5 = create_bill_no_services [where data = empty_bill_doc and s = empty_state
      and s' = empty_bill_loaded and pre = "[]" and bd = ?bd and post = "[]",
      THEN conjunct2, THEN conjunct2, THEN conjunct2, THEN conjunct2]
  have "\<exists>k b'. bd_bill_id ?bd = Some k \<and> get_bill empty_bill_loaded k = Some b'
      \<and> services_rendered b' = []"
    by (rule t5 [THEN mp]) (intro conjI l5 sp5 e5 last5)
  then obtain k b' where k: "bd_bill_id ?bd = Some k"
    and g: "get_bill empty_bill_loaded k = Some b'" and e: "services_rendered b' = []"
    by (elim exE conjE)
  from k have "k = 1" by simp
  with g e have c5: "map_option services_rendered (get_bill empty_bill_loaded 1) = Some []"
    by simp
  from h1 c0 r c1 c2 c3a c3 c3b l4 c4a c4 c4b l5 c5 show ?thesis by blast
qed

text \<open>
  A store that the constructor returns, and whose registry holds a bill with no line
  items: the file's bill has an empty array.
\<close>

theorem loaded_bill_empty_counterexample:
  "HospitalBillingSystem_init (Some (Document empty_bill_doc)) = Inr empty_bill_loaded
   \<and> map (\<lambda>kv. services_rendered (snd kv)) (bills empty_bill_loaded) = [[]]"
  by (simp add: empty_bill_load) (simp add: empty_bill_loaded_def)

section \<open>Loading\<close>

text \<open>
  Claim C6. A store constructed when the backing file does not exist has three empty
  registries and three counters equal to 1, and this is a normal result, not an error.
  When the file exists and loading succeeds, each counter is one more than the greatest
  of 1 and the ids of the records in the file's array of that type (the array being
  empty when its key is absent); so a file with empty arrays yields counters equal to 2.
\<close>

theorem load_counters:
  fixes data :: "('p::{zero,plus}) document"
  shows "HospitalBillingSystem_init None =
           Inr (\<lparr>patients = [], services = [], bills = [],
                next_patient_id = 1, next_service_id = 1, next_bill_id = 1\<rparr> :: 'p state)
     \<and> (load_data (Some (Document data)) s = Inr s' \<longrightarrow>
          next_patient_id s' =
            Max (insert 1 (set (List.map_filter pd_patient_id (get_default (doc_patients data))))) + 1
        \<and> next_service_id s' =
            Max (insert 1 (set (List.map_filter sd_service_id (get_default (doc_services data))))) + 1
        \<and> next_bill_id s' =
            Max (insert 1 (set (List.map_filter bd_bill_id (get_default (doc_bills data))))) + 1)"
proof (intro conjI impI)
  show "HospitalBillingSystem_init None =
           Inr (\<lparr>patients = [], services = [], bills = [],
                next_patient_id = 1, next_service_id = 1, next_bill_id = 1\<rparr> :: 'p state)"
    by (simp add: HospitalBillingSystem_init_def load_data_def empty_state_def)
next
  assume a: "load_data (Some (Document data)) s = Inr s'"
  from a obtain ps ss bs where
    ps: "dict_comp (\<lambda>p. subscript ''patient_id'' (pd_patient_id p)) Patient_from_dict
       (get_default (doc_patients data)) [] = Inr ps"
    and ss: "dict_comp (\<lambda>s. subscript ''service_id'' (sd_service_id s)) Service_from_dict
       (get_default (doc_services data)) [] = Inr ss"
    and bs: "dict_comp (\<lambda>b. subscript ''bill_id'' (bd_bill_id b)) Bill_from_dict
       (get_default (doc_bills data)) [] = Inr bs"
    and s': "s' = s\<lparr>patients := ps, services := ss, bills := bs,
            next_patient_id := Max (insert 1 (fst ` set ps)) + 1,
            next_service_id := Max (insert 1 (fst ` set ss)) + 1,
            next_bill_id := Max (insert 1 (fst ` set bs)) + 1\<rparr>"
    by (rule load_data_DocumentE)
  show "next_patient_id s' =
      Max (insert 1 (set (List.map_filter pd_patient_id (get_default (doc_patients data))))) + 1"
    using dict_comp_keys [OF ps] by (simp add: s' subscript_keys)
  show "next_service_id s' =
      Max (insert 1 (set (List.map_filter sd_service_id (get_default (doc_services data))))) + 1"
    using dict_comp_keys [OF ss] by (simp add: s' subscript_keys)
  show "next_bill_id s' =
      Max (insert 1 (set (List.map_filter bd_bill_id (get_default (doc_bills data))))) + 1"
    using dict_comp_keys [OF bs] by (simp add: s' subscript_keys)
qed

theorem load_counters_witness:
  "\<exists>s'. load_data (Some (Document sparse_doc)) empty_state = Inr s'
        \<and> next_patient_id s' = 8 \<and> next_service_id s' = 2 \<and> next_bill_id s' = 2"
proof -
  obtain s' where h: "load_data (Some (Document sparse_doc)) empty_state = Inr s'"
    by (simp add: load_data_def sparse_doc_def empty_state_def get_default_def subscript_def
        Patient_from_dict_def next_id_after_def)
  from load_counters [of sparse_doc empty_state s'] h
  have "next_patient_id s' = 8 \<and> next_service_id s' = 2 \<and> next_bill_id s' = 2"
    by (simp add: sparse_doc_def get_default_def)
  with h show ?thesis by blast
qed

text \<open>
  Claim C3, as amended. On load the stored \<open>total_amount\<close> is not read at all:
  changing or removing it in the file changes nothing in the loaded bill or the loaded
  store. The loaded bill's line items carry the prices of the file's embedded line
  items, its total is the sum of those prices, and whenever the stored value differs
  from that sum the loaded total differs from the stored value.
\<close>

theorem stored_total_ignored:
  fixes data :: "('p::{zero,plus}) bill_dict"
  shows "Bill_from_dict (data\<lparr>bd_total_amount := t\<rparr>) = Bill_from_dict data
     \<and> load_data (Some (Document (doc\<lparr>doc_bills := Some (map (\<lambda>b. b\<lparr>bd_total_amount := f b\<rparr>) bs)\<rparr>))) s
         = load_data (Some (Document (doc\<lparr>doc_bills := Some bs\<rparr>))) s
     \<and> (Bill_from_dict data = Inr b \<longrightarrow>
          (\<exists>sds. bd_services_rendered data = Some sds
             \<and> map sd_price sds = map (\<lambda>sv. Some (price sv)) (services_rendered b))
          \<and> total_amount b = foldl (+) 0 (map price (services_rendered b))
          \<and> (bd_total_amount data \<noteq> Some (foldl (+) 0 (map price (services_rendered b)))
               \<longrightarrow> bd_total_amount data \<noteq> Some (total_amount b)))"
proof (intro conjI impI)
  show "Bill_from_dict (data\<lparr>bd_total_amount := t\<rparr>) = Bill_from_dict data"
    by (rule Bill_from_dict_ignores_total)
  show "load_data (Some (Document (doc\<lparr>doc_bills := Some (map (\<lambda>b. b\<lparr>bd_total_amount := f b\<rparr>) bs)\<rparr>))) s
         = load_data (Some (Document (doc\<lparr>doc_bills := Some bs\<rparr>))) s"
    by (simp add: load_data_def get_default_def dict_comp_map Bill_from_dict_ignores_total
        cong: option.case_cong sum.case_cong)
next
  assume a: "Bill_from_dict data = Inr b"
  show "\<exists>sds. bd_services_rendered data = Some sds
             \<and> map sd_price sds = map (\<lambda>sv. Some (price sv)) (services_rendered b)"
    by (rule Bill_from_dict_items [OF a])
  show t: "total_amount b = foldl (+) 0 (map price (services_rendered b))"
    by (rule Bill_from_dict_total [OF a])
  assume "bd_total_amount data \<noteq> Some (foldl (+) 0 (map price (services_rendered b)))"
  with t show "bd_total_amount data \<noteq> Some (total_amount b)" by simp
qed

theorem stored_total_ignored_witness:
  "Bill_from_dict tampered_bill = Inr (snd (hd (bills tampered_loaded)))
   \<and> bd_total_amount tampered_bill = Some 999
   \<and> total_amount (snd (hd (bills tampered_loaded))) = 100
   \<and> bd_total_amount tampered_bill \<noteq> Some (total_amount (snd (hd (bills tampered_loaded))))"
proof -
  let ?b = "snd (hd (bills tampered_loaded))"
  have h: "Bill_from_dict tampered_bill = Inr ?b"
    by (simp add: Bill_from_dict_def tampered_bill_def tampered_loaded_def Service_from_dict_def
        Bill_init_def calculate_total_def)
  have items: "services_rendered ?b = [\<lparr>service_id = 1, service_name = ''X-Ray'', price = 100\<rparr>]"
    by (simp add: tampered_loaded_def)
  have stored: "bd_total_amount tampered_bill = Some 999"
    by (simp add: tampered_bill_def)
  from stored_total_ignored [where data = tampered_bill and b = "?b"] h
  have tot: "total_amount ?b = foldl (+) 0 (map price (services_rendered ?b))"
    and ne: "bd_total_amount tampered_bill \<noteq> Some (foldl (+) 0 (map price (services_rendered ?b)))
               \<longrightarrow> bd_total_amount tampered_bill \<noteq> Some (total_amount ?b)"
    by blast+
  from tot have t100: "total_amount ?b = 100" by (simp add: items)
  from ne have "bd_total_amount tampered_bill \<noteq> Some (total_amount ?b)"
    by (simp add: items stored)
  with h stored t100 show ?thesis by blast
qed

text \<open>
  The claim as worded (the stored value is trusted) fails on a file that stores 999
  over one line item priced 100: the loaded total is 100.
\<close>

theorem stored_total_trusted_counterexample:
  "HospitalBillingSystem_init (Some (Document tampered_doc)) = Inr tampered_loaded
   \<and> map bd_total_amount (get_default (doc_bills tampered_doc)) = [Some 999]
   \<and> map (\<lambda>kv. total_amount (snd kv)) (bills tampered_loaded) = [100]"
  by (simp add: tampered_load)
     (simp add: tampered_doc_def tampered_bill_def tampered_loaded_def get_default_def)

section \<open>The total of a bill\<close>

text \<open>
  Claim C10. Every bill is built by the constructor, which computes the total from the
  line items it is given: the total of a constructed bill, of a bill returned by
  \<open>create_bill\<close>, of a bill read from a file entry (whatever total that entry stores),
  and of every bill in the registry of every reachable store is the sum of the prices
  of its line items, added in order from 0.
\<close>

theorem bill_total_invariant:
  fixes s :: "('p::{zero,plus}) state"
  shows "total_amount (Bill_init bid pid svs d) = foldl (+) 0 (map price svs)
     \<and> (fst (create_bill pid service_ids now s) = Some b \<longrightarrow>
          total_amount b = foldl (+) 0 (map price (services_rendered b)))
     \<and> (Bill_from_dict data = Inr b' \<longrightarrow>
          total_amount b' = foldl (+) 0 (map price (services_rendered b')))
     \<and> (reachable s \<longrightarrow>
          (\<forall>b\<in>snd ` set (bills s). total_amount b = foldl (+) 0 (map price (services_rendered b))))"
proof (intro conjI impI)
  show "total_amount (Bill_init bid pid svs d) = foldl (+) 0 (map price svs)"
    by (simp add: Bill_init_def calculate_total_def)
next
  assume "fst (create_bill pid service_ids now s) = Some b"
  from create_bill_Some [OF this]
  show "total_amount b = foldl (+) 0 (map price (services_rendered b))"
    by (auto simp: Bill_init_def calculate_total_def)
next
  assume "Bill_from_dict data = Inr b'"
  then show "total_amount b' = foldl (+) 0 (map price (services_rendered b'))"
    by (rule Bill_from_dict_total)
next
  assume "reachable s"
  then show "\<forall>b\<in>snd ` set (bills s). total_amount b = foldl (+) 0 (map price (services_rendered b))"
    by (rule reachable_bills)
       (auto simp: Bill_from_dict_total Bill_init_def calculate_total_def)
qed

theorem bill_total_invariant_witness:
  "reachable tampered_loaded
   \<and> bills tampered_loaded \<noteq> []
   \<and> total_amount (snd (hd (bills tampered_loaded))) = 100
   \<and> map price (services_rendered (snd (hd (bills tampered_loaded)))) = [100]
   \<and> bd_total_amount tampered_bill = Some 999"
proof -
  have r: "reachable tampered_loaded"
    by (rule reachable.r_init [OF tampered_load])
  have ne: "bills tampered_loaded \<noteq> []" by (simp add: tampered_loaded_def)
  then have mem: "snd (hd (bills tampered_loaded)) \<in> snd ` set (bills tampered_loaded)"
    by simp
  have items: "map price (services_rendered (snd (hd (bills tampered_loaded)))) = [100]"
    by (simp add: tampered_loaded_def)
  from bill_total_invariant [where s = tampered_loaded] r mem
  have "total_amount (snd (hd (bills tampered_loaded)))
          = foldl (+) 0 (map price (services_rendered (snd (hd (bills tampered_loaded)))))"
    by blast
  then have "total_amount (snd (hd (bills tampered_loaded))) = 100"
    by (simp add: items)
  moreover have "bd_total_amount tampered_bill = Some 999" by (simp add: tampered_bill_def)
  ultimately show ?thesis using r ne items by blast
qed

section \<open>Adding a patient\<close>

text \<open>
  Claim C8, as amended. For every name and contact, \<open>add_patient\<close> succeeds: it stores
  under the next patient id a patient with that id, name and contact, leaves every other
  entry of the patient registry as it was, adds one to the patient counter and touches
  nothing else. It returns nothing (Python's \<open>None\<close>), not the new patient.
\<close>

theorem add_patient_effect:
  "fst (add_patient nm ct s) = None
   \<and> map_of (patients (snd (add_patient nm ct s)))
       = (map_of (patients s))(next_patient_id s \<mapsto>
            \<lparr>patient_id = next_patient_id s, name = nm, contact = ct\<rparr>)
   \<and> get_patient (snd (add_patient nm ct s)) (next_patient_id s)
       = Some \<lparr>patient_id = next_patient_id s, name = nm, contact = ct\<rparr>
   \<and> next_patient_id (snd (add_patient nm ct s)) = next_patient_id s + 1
   \<and> services (snd (add_patient nm ct s)) = services s
   \<and> bills (snd (add_patient nm ct s)) = bills s
   \<and> next_service_id (snd (add_patient nm ct s)) = next_service_id s
   \<and> next_bill_id (snd (add_patient nm ct s)) = next_bill_id s"
  by (simp add: add_patient_def get_patient_def Let_def AList.update_conv')

text \<open>On the empty store the call returns \<open>None\<close>, not the patient with id 1.\<close>

theorem add_patient_returns_counterexample:
  "fst (add_patient ''Ann'' ''555-0100'' (empty_state :: real state)) = None
   \<and> fst (add_patient ''Ann'' ''555-0100'' (empty_state :: real state))
       \<noteq> Some \<lparr>patient_id = 1, name = ''Ann'', contact = ''555-0100''\<rparr>"
  by (simp add: add_patient_def Let_def)

section \<open>Saving and loading again\<close>

text \<open>
  Claim C1, as amended. For every reachable store, loading the document that
  \<open>save_data\<close> writes succeeds and yields the same patients, services and bills, in
  the same order and field for field (each bill with its line items, date and total).
  Each counter is preserved when its registry is not empty; the counter of an empty
  registry is 2 after the reload, whatever it was before.
\<close>

theorem save_load_roundtrip:
  fixes s :: "('p::{zero,plus}) state"
  assumes "reachable s"
  shows "load_data (Some (Document (save_data s))) s0 =
     Inr (s\<lparr>next_patient_id := (if patients s = [] then 2 else next_patient_id s),
            next_service_id := (if services s = [] then 2 else next_service_id s),
            next_bill_id := (if bills s = [] then 2 else next_bill_id s)\<rparr>)"
proof -
  have ok: "state_ok s" by (rule reachable_ok [OF assms])
  then have "registry_ok patient_id (patients s) (next_patient_id s)"
    and "registry_ok service_id (services s) (next_service_id s)"
    and "registry_ok bill_id (bills s) (next_bill_id s)"
    by (simp_all add: state_ok_def)
  then have "Max (insert 1 (fst ` set (patients s))) + 1 = (if patients s = [] then 2 else next_patient_id s)"
    and "Max (insert 1 (fst ` set (services s))) + 1 = (if services s = [] then 2 else next_service_id s)"
    and "Max (insert 1 (fst ` set (bills s))) + 1 = (if bills s = [] then 2 else next_bill_id s)"
    by (simp_all only: registry_counter)
  with load_save [OF ok, of s0] show ?thesis by simp
qed

theorem save_load_roundtrip_witness:
  "reachable example_billed
   \<and> reachable (empty_state :: real state)
   \<and> HospitalBillingSystem_init (Some (Document (save_data example_billed))) = Inr example_billed
   \<and> HospitalBillingSystem_init (Some (Document (save_data (empty_state :: real state))))
       = Inr (empty_state\<lparr>next_patient_id := 2, next_service_id := 2, next_bill_id := 2\<rparr>)"
proof -
  have r: "reachable example_billed" by (rule example_billed_reachable)
  have e: "reachable (empty_state :: real state)" by (rule empty_state_reachable)
  have a: "HospitalBillingSystem_init (Some (Document (save_data example_billed))) = Inr example_billed"
    unfolding HospitalBillingSystem_init_def
    using save_load_roundtrip [OF r, of empty_state] by (simp add: example_billed_eq)
  have b: "HospitalBillingSystem_init (Some (Document (save_data (empty_state :: real state))))
       = Inr (empty_state\<lparr>next_patient_id := 2, next_service_id := 2, next_bill_id := 2\<rparr>)"
    unfolding HospitalBillingSystem_init_def
    using save_load_roundtrip [OF e, of empty_state] by (simp add: empty_state_def)
  from r e a b show ?thesis by blast
qed

text \<open>
  A store constructed without a file has counters 1; saved and loaded again it has
  counters 2, so the reloaded store differs from the saved one.
\<close>

theorem save_load_counters_counterexample:
  "HospitalBillingSystem_init None = Inr (empty_state :: real state)
   \<and> HospitalBillingSystem_init (Some (Document (save_data (empty_state :: real state))))
       = Inr (empty_state\<lparr>next_patient_id := 2, next_service_id := 2, next_bill_id := 2\<rparr>)
   \<and> next_patient_id (empty_state :: real state) = 1
   \<and> HospitalBillingSystem_init (Some (Document (save_data (empty_state :: real state))))
       \<noteq> Inr (empty_state :: real state)"
  by (simp add: HospitalBillingSystem_init_def load_data_def save_data_def empty_state_def
      get_default_def next_id_after_def)

section \<open>Identifiers\<close>

text \<open>
  Claim C7. On every reachable store, \<open>n\<close> calls of \<open>add_patient\<close> append to the
  registry \<open>n\<close> patients whose ids are the counter's value before the calls and the
  \<open>n - 1\<close> numbers after it, in this order: strictly increasing, without a gap; and
  the counter ends \<open>n\<close> higher, one per call. The same holds of \<open>add_service\<close>. Of a
  sequence of calls of \<open>create_bill\<close>, those that succeed receive the counter's value
  and the numbers after it, in order, and the counter ends higher by the number of
  successes: a call that succeeds adds exactly 1, a call that fails adds nothing.
  The counters of a store constructed without a file are 1, and the counters of a
  store just loaded are one more than the greatest of 1 and the ids loaded.
\<close>

theorem id_monotonicity:
  fixes s :: "('p::{zero,plus}) state"
  assumes "reachable s"
  shows "map (\<lambda>kv. (fst kv, patient_id (snd kv))) (patients (add_patients pargs s)) =
           map (\<lambda>kv. (fst kv, patient_id (snd kv))) (patients s)
             @ map (\<lambda>i. (next_patient_id s + int i, next_patient_id s + int i)) [0..<length pargs]
     \<and> next_patient_id (add_patients pargs s) = next_patient_id s + int (length pargs)
     \<and> map (\<lambda>kv. (fst kv, service_id (snd kv))) (services (add_services sargs s)) =
           map (\<lambda>kv. (fst kv, service_id (snd kv))) (services s)
             @ map (\<lambda>i. (next_service_id s + int i, next_service_id s + int i)) [0..<length sargs]
     \<and> next_service_id (add_services sargs s) = next_service_id s + int (length sargs)
     \<and> map (\<lambda>kv. (fst kv, bill_id (snd kv))) (bills (snd (create_bills calls s))) =
           map (\<lambda>kv. (fst kv, bill_id (snd kv))) (bills s)
             @ map (\<lambda>i. (next_bill_id s + int i, next_bill_id s + int i))
                 [0..<length (created (fst (create_bills calls s)))]
     \<and> map bill_id (created (fst (create_bills calls s)))
           = map (\<lambda>i. next_bill_id s + int i) [0..<length (created (fst (create_bills calls s)))]
     \<and> next_bill_id (snd (create_bills calls s))
           = next_bill_id s + int (length (created (fst (create_bills calls s))))
     \<and> (fst (create_bill pid service_ids now s) = Some b \<longrightarrow>
            bill_id b = next_bill_id s
            \<and> next_bill_id (snd (create_bill pid service_ids now s)) = next_bill_id s + 1)
     \<and> (fst (create_bill pid service_ids now s) = None \<longrightarrow>
            next_bill_id (snd (create_bill pid service_ids now s)) = next_bill_id s)
     \<and> (HospitalBillingSystem_init None = Inr s \<longrightarrow>
            next_patient_id s = 1 \<and> next_service_id s = 1 \<and> next_bill_id s = 1)
     \<and> (load_data (Some (Document data)) s0 = Inr s \<longrightarrow>
            next_patient_id s = Max (insert 1 (fst ` set (patients s))) + 1
            \<and> next_service_id s = Max (insert 1 (fst ` set (services s))) + 1
            \<and> next_bill_id s = Max (insert 1 (fst ` set (bills s))) + 1)"
proof -
  have ok: "state_ok s" by (rule reachable_ok [OF assms])
  then have bp: "ids_below (patients s) (next_patient_id s)"
    and bs: "ids_below (services s) (next_service_id s)"
    and bb: "ids_below (bills s) (next_bill_id s)"
    by (auto simp: state_ok_def intro: registry_ok_below)
  note a1 = add_patients_ids [OF bp, of pargs]
  note a2 = add_patients_counter [of pargs s]
  note a3 = add_services_ids [OF bs, of sargs]
  note a4 = add_services_counter [of sargs s]
  from create_bills_ids [of calls s] bb
  have a5: "map (\<lambda>kv. (fst kv, bill_id (snd kv))) (bills (snd (create_bills calls s))) =
           map (\<lambda>kv. (fst kv, bill_id (snd kv))) (bills s)
             @ map (\<lambda>i. (next_bill_id s + int i, next_bill_id s + int i))
                 [0..<length (created (fst (create_bills calls s)))]"
    and a6: "map bill_id (created (fst (create_bills calls s)))
           = map (\<lambda>i. next_bill_id s + int i) [0..<length (created (fst (create_bills calls s)))]"
    and a7: "next_bill_id (snd (create_bills calls s))
           = next_bill_id s + int (length (created (fst (create_bills calls s))))"
    by blast+
  note a8 = create_bill_step [of pid service_ids now s b]
  have a9: "HospitalBillingSystem_init None = Inr s \<longrightarrow>
            next_patient_id s = 1 \<and> next_service_id s = 1 \<and> next_bill_id s = 1"
    by (auto simp: HospitalBillingSystem_init_def load_data_def empty_state_def)
  have a10: "load_data (Some (Document data)) s0 = Inr s \<longrightarrow>
            next_patient_id s = Max (insert 1 (fst ` set (patients s))) + 1
            \<and> next_service_id s = Max (insert 1 (fst ` set (services s))) + 1
            \<and> next_bill_id s = Max (insert 1 (fst ` set (bills s))) + 1"
    by (auto elim!: load_data_DocumentE)
  from a1 a2 a3 a4 a5 a6 a7 a8 a9 a10 show ?thesis by (intro conjI) blast+
qed

theorem id_monotonicity_witness:
  "reachable example_store
   \<and> map (\<lambda>kv. (fst kv, patient_id (snd kv)))
        (patients (add_patients [(''Bo'', ''555-0101''), (''Cy'', ''555-0102'')] example_store))
       = [(1, 1), (2, 2), (3, 3)]
   \<and> next_patient_id (add_patients [(''Bo'', ''555-0101''), (''Cy'', ''555-0102'')] example_store) = 4
   \<and> map (\<lambda>kv. (fst kv, service_id (snd kv)))
        (services (add_services [(''Scan'', 70)] example_store))
       = [(1, 1), (2, 2), (3, 3)]
   \<and> map (map_option bill_id) (fst (create_bills example_calls example_store))
       = [Some 1, None, None, Some 2]
   \<and> map (\<lambda>kv. (fst kv, bill_id (snd kv))) (bills (snd (create_bills example_calls example_store)))
       = [(1, 1), (2, 2)]
   \<and> next_bill_id (snd (create_bills example_calls example_store)) = 3"
proof -
  have r: "reachable example_store" by (rule example_store_reachable)
  have n: "length (created (fst (create_bills example_calls example_store))) = 2"
  proof -
    have "length (created (fst (create_bills example_calls example_store)))
        = length (created (map (map_option bill_id) (fst (create_bills example_calls example_store))))"
      by (simp add: created_map_length)
    then show ?thesis by (simp add: example_calls_run created_def)
  qed
  note m = id_monotonicity [OF r, where pargs = "[(''Bo'', ''555-0101''), (''Cy'', ''555-0102'')]"
      and sargs = "[(''Scan'', 70)]" and calls = example_calls]
  from m have "map (\<lambda>kv. (fst kv, patient_id (snd kv)))
        (patients (add_patients [(''Bo'', ''555-0101''), (''Cy'', ''555-0102'')] example_store))
       = [(1, 1), (2, 2), (3, 3)]"
    by (simp add: example_store_eq)
  moreover from m have
    "next_patient_id (add_patients [(''Bo'', ''555-0101''), (''Cy'', ''555-0102'')] example_store) = 4"
    by (simp add: example_store_eq)
  moreover from m have "map (\<lambda>kv. (fst kv, service_id (snd kv)))
        (services (add_services [(''Scan'', 70)] example_store))
       = [(1, 1), (2, 2), (3, 3)]"
    by (simp add: example_store_eq)
  moreover from m have "map (\<lambda>kv. (fst kv, bill_id (snd kv)))
        (bills (snd (create_bills example_calls example_store))) = [(1, 1), (2, 2)]"
    by (simp add: n) (simp add: example_store_eq eval_nat_numeral)
  moreover from m have "next_bill_id (snd (create_bills example_calls example_store)) = 3"
    by (simp add: n) (simp add: example_store_eq)
  ultimately show ?thesis using r example_calls_run by blast
qed

section \<open>Bills and the services they hold\<close>

text \<open>
  Claim C9, as amended. \<open>create_bill\<close> creates no Service object: the line items of
  the bill it returns and stores are the registry's own objects for the ids that
  resolve, in the order given. The total of the bill is a number computed at that
  moment from their prices. A later assignment to the name and price of the object
  that the registry holds under an id leaves every stored bill's references and total
  as they were, and shows in the line items of the bill at each position that holds
  this object; the other positions are unchanged. Storing a new Service object under
  an id changes neither the line items nor the total of the bill.
\<close>

theorem bill_shares_service_objects:
  fixes s :: "('p::{zero,plus}) hstate"
  assumes "h_create_bill pid service_ids now s = (Some b, s')"
  shows "heap s' = heap s \<and> next_ref s' = next_ref s
     \<and> hb_services_rendered b = List.map_filter (h_get_service s) service_ids
     \<and> hb_total_amount b = foldl (+) 0 (map price (line_items s b))
     \<and> map_of (h_bills s') (hb_bill_id b) = Some b
     \<and> (assign_service sid nm pr s' = Inr s'' \<longrightarrow>
          h_bills s'' = h_bills s'
          \<and> line_items s'' b =
              map (\<lambda>r. if h_get_service s sid = Some r
                        then (heap s r)\<lparr>service_name := nm, price := pr\<rparr> else heap s r)
                (hb_services_rendered b))
     \<and> (refs_allocated s \<longrightarrow>
          h_bills (replace_service sid nm pr s') = h_bills s'
          \<and> line_items (replace_service sid nm pr s') b = line_items s' b)"
proof -
  from h_create_bill_SomeD [OF assms]
  have b: "b = \<lparr>hb_bill_id = h_next_bill_id s, hb_patient_id = pid,
              hb_services_rendered = List.map_filter (h_get_service s) service_ids,
              hb_bill_date = now,
              hb_total_amount = h_calculate_total s (List.map_filter (h_get_service s) service_ids)\<rparr>"
    and s': "s' = s\<lparr>h_bills := AList.update (h_next_bill_id s) b (h_bills s),
              h_next_bill_id := h_next_bill_id s + 1\<rparr>"
    by blast+
  have refs: "hb_services_rendered b = List.map_filter (h_get_service s) service_ids"
    by (subst b) simp
  have bid: "hb_bill_id b = h_next_bill_id s" by (subst b) simp
  have c1: "heap s' = heap s \<and> next_ref s' = next_ref s" by (simp add: s')
  have c2: "hb_total_amount b = foldl (+) 0 (map price (line_items s b))"
    unfolding line_items_def refs by (subst b) (simp add: h_calculate_total_def comp_def)
  have c3: "map_of (h_bills s') (hb_bill_id b) = Some b"
    by (simp add: s' bid AList.update_conv')
  have c4: "h_bills s'' = h_bills s'
          \<and> line_items s'' b =
              map (\<lambda>r. if h_get_service s sid = Some r
                        then (heap s r)\<lparr>service_name := nm, price := pr\<rparr> else heap s r)
                (hb_services_rendered b)"
    if a: "assign_service sid nm pr s' = Inr s''"
  proof -
    from a obtain r where r: "map_of (h_services s') sid = Some r"
      and s'': "s'' = s'\<lparr>heap := (heap s')(r := (heap s' r)\<lparr>service_name := nm, price := pr\<rparr>)\<rparr>"
      by (auto simp: assign_service_def split: option.splits)
    have g: "h_get_service s sid = Some r" using r by (simp add: h_get_service_def s')
    show ?thesis
      by (auto simp: s'' line_items_def g c1)
  qed
  have c5: "h_bills (replace_service sid nm pr s') = h_bills s'
          \<and> line_items (replace_service sid nm pr s') b = line_items s' b"
    if w: "refs_allocated s"
  proof -
    have "set (hb_services_rendered b) \<subseteq> snd ` set (h_services s)"
      unfolding refs h_get_service_def by (rule map_filter_range)
    with w have lt: "\<forall>r\<in>set (hb_services_rendered b). r < next_ref s"
      by (auto simp: refs_allocated_def list_all_iff)
    have "map ((heap s')(next_ref s' := v)) (hb_services_rendered b) = map (heap s') (hb_services_rendered b)" for v
      using lt c1 by (intro map_cong) auto
    then show ?thesis
      by (simp add: replace_service_def Let_def line_items_def)
  qed
  from c1 refs c2 c3 c4 c5 show ?thesis by blast
qed

theorem bill_shares_service_objects_witness:
  "h_create_bill 1 [1, 2, 2] ''2024-01-01 10:00:00'' h_example_store
       = (Some h_example_bill, h_example_billed)
   \<and> assign_service 1 ''X-Ray'' 500 h_example_billed = Inr h_example_repriced
   \<and> refs_allocated h_example_store
   \<and> hb_services_rendered h_example_bill = [0, 1, 1]
   \<and> h_bills h_example_repriced = [(1, h_example_bill)]
   \<and> hb_total_amount h_example_bill = 200
   \<and> line_items h_example_repriced h_example_bill =
       [\<lparr>service_id = 1, service_name = ''X-Ray'', price = 500\<rparr>,
        \<lparr>service_id = 2, service_name = ''Consult'', price = 50\<rparr>,
        \<lparr>service_id = 2, service_name = ''Consult'', price = 50\<rparr>]
   \<and> line_items (replace_service 1 ''X-Ray'' 500 h_example_billed) h_example_bill =
       [\<lparr>service_id = 1, service_name = ''X-Ray'', price = 100\<rparr>,
        \<lparr>service_id = 2, service_name = ''Consult'', price = 50\<rparr>,
        \<lparr>service_id = 2, service_name = ''Consult'', price = 50\<rparr>]"
proof -
  have w: "refs_allocated h_example_store"
    by (simp add: refs_allocated_def h_example_store_eq)
  note t = bill_shares_service_objects [OF h_example_create,
      where sid = 1 and nm = "''X-Ray''" and pr = 500 and s'' = h_example_repriced]
  have li: "line_items h_example_billed h_example_bill =
       [\<lparr>service_id = 1, service_name = ''X-Ray'', price = 100\<rparr>,
        \<lparr>service_id = 2, service_name = ''Consult'', price = 50\<rparr>,
        \<lparr>service_id = 2, service_name = ''Consult'', price = 50\<rparr>]"
    by (simp add: line_items_def h_example_bill_def h_example_billed_eq)
  from t h_example_assign have "h_bills h_example_repriced = h_bills h_example_billed"
    by blast
  then have c1: "h_bills h_example_repriced = [(1, h_example_bill)]"
    by (simp add: h_example_billed_eq)
  from t h_example_assign have "line_items h_example_repriced h_example_bill =
      map (\<lambda>r. if h_get_service h_example_store 1 = Some r
                then (heap h_example_store r)\<lparr>service_name := ''X-Ray'', price := 500\<rparr>
                else heap h_example_store r)
        (hb_services_rendered h_example_bill)"
    by blast
  then have c2: "line_items h_example_repriced h_example_bill =
       [\<lparr>service_id = 1, service_name = ''X-Ray'', price = 500\<rparr>,
        \<lparr>service_id = 2, service_name = ''Consult'', price = 50\<rparr>,
        \<lparr>service_id = 2, service_name = ''Consult'', price = 50\<rparr>]"
    by (simp add: h_get_service_def h_example_store_eq h_example_bill_def)
  from t w have "line_items (replace_service 1 ''X-Ray'' 500 h_example_billed) h_example_bill
      = line_items h_example_billed h_example_bill"
    by blast
  with li have c3: "line_items (replace_service 1 ''X-Ray'' 500 h_example_billed) h_example_bill =
       [\<lparr>service_id = 1, service_name = ''X-Ray'', price = 100\<rparr>,
        \<lparr>service_id = 2, service_name = ''Consult'', price = 50\<rparr>,
        \<lparr>service_id = 2, service_name = ''Consult'', price = 50\<rparr>]"
    by simp
  have c4: "hb_services_rendered h_example_bill = [0, 1, 1]" "hb_total_amount h_example_bill = 200"
    by (simp_all add: h_example_bill_def)
  from h_example_create h_example_assign w c1 c2 c3 c4 show ?thesis by blast
qed

text \<open>
  The claim as worded (the bill holds copies) fails: after the price of service 1 is
  assigned 500, the first line item of the bill created before shows 500, not 100.
\<close>

theorem bill_copies_counterexample:
  "h_create_bill 1 [1, 2, 2] ''2024-01-01 10:00:00'' h_example_store
       = (Some h_example_bill, h_example_billed)
   \<and> assign_service 1 ''X-Ray'' 500 h_example_billed = Inr h_example_repriced
   \<and> map price (line_items h_example_billed h_example_bill) = [100, 50, 50]
   \<and> map price (line_items h_example_repriced h_example_bill) = [500, 50, 50]
   \<and> line_items h_example_repriced h_example_bill \<noteq> line_items h_example_billed h_example_bill"
proof -
  have a: "map price (line_items h_example_billed h_example_bill) = [100, 50, 50]"
    by (simp add: line_items_def h_example_bill_def h_example_billed_eq)
  have b: "map price (line_items h_example_repriced h_example_bill) = [500, 50, 50]"
    by (simp add: line_items_def h_example_bill_def h_example_repriced_def h_example_billed_eq)
  from a b have "line_items h_example_repriced h_example_bill \<noteq> line_items h_example_billed h_example_bill"
    by auto
  with a b h_example_create h_example_assign show ?thesis by blast
qed

end
